theory Spec2Isabelle
  imports Main "HOL-Library.Word"
begin

section \<open>The view over a character buffer (include/string_view.hpp)\<close>

text \<open>
  \<^verbatim>\<open>basic_string_view<CharT, Traits>\<close> holds a pointer \<^verbatim>\<open>m_data\<close> and a length
  \<^verbatim>\<open>m_size\<close> of type \<^verbatim>\<open>size_t\<close>. Both are 64-bit words here: arithmetic on them
  wraps as the unsigned arithmetic of the source does, and the pointer counts in units of one
  \<^verbatim>\<open>CharT\<close>. The null pointer is the address 0. The characters live in one memory,
  a function from addresses to characters, shared by every view; the character type is a
  parameter with an order (\<^verbatim>\<open>Traits::lt\<close>) and a zero (the terminator \<^verbatim>\<open>CharT()\<close>).
\<close>

type_synonym size_type = "64 word"
type_synonym const_pointer = "64 word"
type_synonym 'c memory = "const_pointer \<Rightarrow> 'c"

definition nullptr :: const_pointer where
  "nullptr = 0"

text \<open>\<^verbatim>\<open>static constexpr size_type npos = size_type(-1)\<close>\<close>

definition npos :: size_type where
  "npos = - 1"

record basic_string_view =
  m_data :: const_pointer
  m_size :: size_type

text \<open>
  The exception classes of \<^verbatim>\<open><stdexcept>\<close>, which the header includes. The
  throw-expressions of the source name \<^verbatim>\<open>std::out_of_range\<close>.
\<close>

datatype exception =
    Logic_error | Domain_error | Invalid_argument | Length_error | Out_of_range
  | Runtime_error | Range_error | Overflow_error | Underflow_error

subsection \<open>The character traits\<close>

text \<open>
  Modelled from the spec: \<^verbatim>\<open>Traits_type\<close> is the template parameter, by default the
  standard library's \<^verbatim>\<open>std::char_traits<CharT>\<close>, which is not part of the repository.
  \<^verbatim>\<open>Traits::compare(s1, s2, n)\<close> is the "character-wise ordering comparison over the first
  n characters using the element type's natural ordering": at the first index where the
  characters differ it is negative when the left one is smaller and positive when it is
  larger, and it is 0 when the n characters are equal. The model returns \<open>- 1\<close> and 1 for
  negative and positive, and takes the count as a natural number (the callers pass
  \<open>unat\<close> of their \<^verbatim>\<open>size_t\<close>).
\<close>

fun Traits_compare :: "('c::linorder) memory \<Rightarrow> const_pointer \<Rightarrow> const_pointer \<Rightarrow> nat \<Rightarrow> int" where
  "Traits_compare mem s1 s2 0 = 0"
| "Traits_compare mem s1 s2 (Suc n) =
     (if mem s1 < mem s2 then - 1
      else if mem s2 < mem s1 then 1
      else Traits_compare mem (s1 + 1) (s2 + 1) n)"

subsection \<open>Constructors\<close>

text \<open>\<^verbatim>\<open>basic_string_view() : m_data(nullptr), m_size(0)\<close>\<close>

definition sv_default :: basic_string_view where
  "sv_default = \<lparr>m_data = nullptr, m_size = 0\<rparr>"

text \<open>\<^verbatim>\<open>basic_string_view(const CharT* s, size_type count) : m_data(s), m_size(count)\<close>\<close>

definition sv_ptr_count :: "const_pointer \<Rightarrow> size_type \<Rightarrow> basic_string_view" where
  "sv_ptr_count s count = \<lparr>m_data = s, m_size = count\<rparr>"

text \<open>
  Modelled from the spec: \<^verbatim>\<open>Traits::length(s)\<close> of the standard library's
  \<^verbatim>\<open>std::char_traits\<close>, which is not part of the repository: the "scan length up to
  (not including) the terminator", a loop \<^verbatim>\<open>while (s[i] != CharT()) ++i; return i;\<close>
  from \<^verbatim>\<open>i = 0\<close>. It runs forever on a memory without a terminator, hence the option.
\<close>

partial_function (option) Traits_length_loop :: "('c::zero) memory \<Rightarrow> const_pointer \<Rightarrow> size_type
    \<Rightarrow> size_type option" where
  "Traits_length_loop mem s i =
     (if mem (s + i) = 0 then Some i else Traits_length_loop mem s (i + 1))"

definition Traits_length :: "('c::zero) memory \<Rightarrow> const_pointer \<Rightarrow> size_type option" where
  "Traits_length mem s = Traits_length_loop mem s 0"

text \<open>
  \<^verbatim>\<open>__strlen(const_pointer data) { return data == nullptr ? 0 : Traits_type::length(data); }\<close>
\<close>

definition strlen_sv :: "('c::zero) memory \<Rightarrow> const_pointer \<Rightarrow> size_type option" where
  "strlen_sv mem data = (if data = nullptr then Some 0 else Traits_length mem data)"

text \<open>\<^verbatim>\<open>basic_string_view(const CharT* s) : m_data(s), m_size(__strlen(s))\<close>\<close>

definition sv_cstr :: "('c::zero) memory \<Rightarrow> const_pointer \<Rightarrow> basic_string_view option" where
  "sv_cstr mem s =
     (case strlen_sv mem s of
        None \<Rightarrow> None
      | Some n \<Rightarrow> Some \<lparr>m_data = s, m_size = n\<rparr>)"

text \<open>
  \<^verbatim>\<open>basic_string_view(const basic_string_view& other) noexcept = default\<close> (line 94):
  "\<^verbatim>\<open>data()\<close> is equal to \<^verbatim>\<open>other.data()\<close>, and \<^verbatim>\<open>size()\<close> is equal to
  \<^verbatim>\<open>other.size()\<close>".
\<close>

definition copy_ctor :: "basic_string_view \<Rightarrow> basic_string_view" where
  "copy_ctor other = \<lparr>m_data = m_data other, m_size = m_size other\<rparr>"

text \<open>
  \<^verbatim>\<open>basic_string_view& operator=(const basic_string_view& view) noexcept = default\<close>:
  the two fields are assigned and \<^verbatim>\<open>*this\<close> is returned.
\<close>

definition operator_assign :: "basic_string_view \<Rightarrow> basic_string_view \<Rightarrow> basic_string_view" where
  "operator_assign this view = this\<lparr>m_data := m_data view, m_size := m_size view\<rparr>"

text \<open>
  Modelled from the spec: the copy of a view that a by-value parameter takes from a view that
  is a non-const lvalue (a parameter such as \<^verbatim>\<open>sv\<close>, or \<^verbatim>\<open>*this\<close> in a non-const
  member). The header declares the template constructor \<^verbatim>\<open>basic_string_view(R&& r)\<close>
  (lines 117 to 119, "NOT YET IMPLEMENTED") and does not define it. For an argument that is a
  non-const lvalue of the view's own type, overload resolution takes this template, whose
  parameter \<^verbatim>\<open>basic_string_view&\<close> binds the argument as it is, before the copy
  constructor of line 94, which adds \<^verbatim>\<open>const\<close>. The header so holds no code for these
  copies: a program that calls an operation making one has no definition of this constructor
  to link against, and the operation gives no result as the header stands. The model takes
  the copy the spec describes, a view "constructed from another View (aliasing, not copying)":
  the fields of the source, which is what the copy constructor gives. Every definition below
  that makes such a copy says so and calls \<open>sv_copy\<close>: \<open>swap\<close>, the overload
  \<open>compare(pos1, count1, v)\<close>, \<open>starts_with\<close> and \<open>ends_with\<close> of a view, and the six
  comparison operators.
\<close>

definition sv_copy :: "basic_string_view \<Rightarrow> basic_string_view" where
  "sv_copy other = copy_ctor other"

subsection \<open>substr\<close>

text \<open>
  \<^verbatim>\<open>if (m_size < pos) throw std::out_of_range("Out of range");\<close>
  \<^verbatim>\<open>const size_type rcount = std::min(count, m_size - pos);\<close>
  \<^verbatim>\<open>return (rcount <= 0) ? basic_string_view() : basic_string_view(m_data + pos, rcount);\<close>
\<close>

definition substr :: "basic_string_view \<Rightarrow> size_type \<Rightarrow> size_type \<Rightarrow> exception + basic_string_view" where
  "substr h pos count =
     (if m_size h < pos then Inl Out_of_range
      else let rcount = min count (m_size h - pos)
           in if rcount \<le> 0 then Inr sv_default
              else Inr (sv_ptr_count (m_data h + pos) rcount))"

subsection \<open>Iterators\<close>

text \<open>
  \<^verbatim>\<open>begin() { return m_data; }\<close>, \<^verbatim>\<open>end() { return m_data + m_size; }\<close>,
  \<^verbatim>\<open>cbegin() { return begin(); }\<close>, \<^verbatim>\<open>cend() { return end(); }\<close>. The iterators are
  pointers; a reverse iterator is modelled by the pointer it is made of:
  \<^verbatim>\<open>rbegin() { return const_reverse_iterator(end()); }\<close>,
  \<^verbatim>\<open>rend() { return const_reverse_iterator(begin()); }\<close>,
  \<^verbatim>\<open>crbegin() { return rbegin(); }\<close>, \<^verbatim>\<open>crend() { return rend(); }\<close>.
\<close>

definition begin_sv :: "basic_string_view \<Rightarrow> const_pointer" where
  "begin_sv h = m_data h"

definition cbegin :: "basic_string_view \<Rightarrow> const_pointer" where
  "cbegin h = begin_sv h"

definition end_sv :: "basic_string_view \<Rightarrow> const_pointer" where
  "end_sv h = m_data h + m_size h"

definition cend :: "basic_string_view \<Rightarrow> const_pointer" where
  "cend h = end_sv h"

definition rbegin :: "basic_string_view \<Rightarrow> const_pointer" where
  "rbegin h = end_sv h"

definition crbegin :: "basic_string_view \<Rightarrow> const_pointer" where
  "crbegin h = rbegin h"

definition rend :: "basic_string_view \<Rightarrow> const_pointer" where
  "rend h = begin_sv h"

definition crend :: "basic_string_view \<Rightarrow> const_pointer" where
  "crend h = rend h"

subsection \<open>Capacity and element access\<close>

text \<open>
  \<^verbatim>\<open>size() { return m_size; }\<close>, \<^verbatim>\<open>length() { return m_size; }\<close>,
  \<^verbatim>\<open>max_size() { return k_max_size; }\<close> with
  \<^verbatim>\<open>k_max_size = std::numeric_limits<size_type>::max()\<close>.
\<close>

definition size_sv :: "basic_string_view \<Rightarrow> size_type" where
  "size_sv h = m_size h"

definition length_sv :: "basic_string_view \<Rightarrow> size_type" where
  "length_sv h = m_size h"

definition k_max_size :: size_type where
  "k_max_size = - 1"

definition max_size :: "basic_string_view \<Rightarrow> size_type" where
  "max_size h = k_max_size"

text \<open>\<^verbatim>\<open>bool empty() const noexcept { return m_size == 0; }\<close>\<close>

definition empty_sv :: "basic_string_view \<Rightarrow> bool" where
  "empty_sv h = (m_size h = 0)"

text \<open>
  \<^verbatim>\<open>operator[](size_type pos) { return m_data[pos]; }\<close>,
  \<^verbatim>\<open>front() { return m_data[0]; }\<close>, \<^verbatim>\<open>back() { return m_data[m_size - 1]; }\<close>,
  \<^verbatim>\<open>data() { return m_data; }\<close>. None of them checks the index: they read the memory
  at the address, whatever it holds.
\<close>

definition operator_index :: "'c memory \<Rightarrow> basic_string_view \<Rightarrow> size_type \<Rightarrow> 'c" where
  "operator_index mem h pos = mem (m_data h + pos)"

definition front_sv :: "'c memory \<Rightarrow> basic_string_view \<Rightarrow> 'c" where
  "front_sv mem h = mem (m_data h + 0)"

definition back_sv :: "'c memory \<Rightarrow> basic_string_view \<Rightarrow> 'c" where
  "back_sv mem h = mem (m_data h + (m_size h - 1))"

definition data_sv :: "basic_string_view \<Rightarrow> const_pointer" where
  "data_sv h = m_data h"

text \<open>
  \<^verbatim>\<open>return (pos < m_size) ? m_data[pos] : throw std::out_of_range("Out of range.");\<close>
\<close>

definition at :: "'c memory \<Rightarrow> basic_string_view \<Rightarrow> size_type \<Rightarrow> exception + 'c" where
  "at mem h pos = (if pos < m_size h then Inr (mem (m_data h + pos)) else Inl Out_of_range)"

subsection \<open>Modifiers\<close>

text \<open>
  \<^verbatim>\<open>remove_prefix(size_type n) { m_data += n; m_size -= n; }\<close> and
  \<^verbatim>\<open>remove_suffix(size_type n) { m_size -= n; }\<close>; the result is the view after the call.
\<close>

definition remove_prefix :: "basic_string_view \<Rightarrow> size_type \<Rightarrow> basic_string_view" where
  "remove_prefix h n = h\<lparr>m_data := m_data h + n, m_size := m_size h - n\<rparr>"

definition remove_suffix :: "basic_string_view \<Rightarrow> size_type \<Rightarrow> basic_string_view" where
  "remove_suffix h n = h\<lparr>m_size := m_size h - n\<rparr>"

text \<open>
  \<^verbatim>\<open>swap(basic_string_view& v) { auto other = *this; *this = v; v = other; }\<close>
  The result is the pair of the two views after the call. \<^verbatim>\<open>*this\<close> is a non-const
  lvalue in this member, so \<^verbatim>\<open>other\<close> is the copy \<open>sv_copy\<close>, modelled from the spec.
\<close>

definition swap :: "basic_string_view \<Rightarrow> basic_string_view \<Rightarrow> basic_string_view \<times> basic_string_view" where
  "swap h v =
     (let other = sv_copy h;
          this = operator_assign h v;
          v' = operator_assign v other
      in (this, v'))"

subsection \<open>copy\<close>

text \<open>
  Modelled from the spec: \<^verbatim>\<open>Traits::copy(dest, src, n)\<close> of the standard library's
  \<^verbatim>\<open>std::char_traits\<close>, which is not part of the repository: it assigns
  \<^verbatim>\<open>dest[i] = src[i]\<close> for i from 0 to n - 1. The standard asks that the two ranges
  do not overlap; the model copies forwards, one character after the other, and returns the
  memory after the writes.
\<close>

fun Traits_copy :: "'c memory \<Rightarrow> const_pointer \<Rightarrow> const_pointer \<Rightarrow> nat \<Rightarrow> 'c memory" where
  "Traits_copy mem dest src 0 = mem"
| "Traits_copy mem dest src (Suc n) = Traits_copy (mem(dest := mem src)) (dest + 1) (src + 1) n"

text \<open>
  \<^verbatim>\<open>if (m_size < pos) throw std::out_of_range("Out of range");\<close>
  \<^verbatim>\<open>const size_type rcount = std::min(count, m_size - pos);\<close>
  \<^verbatim>\<open>Traits_type::copy(dest, m_data + pos, rcount); return rcount;\<close>
  The result is the memory after the call and the returned count.
\<close>

definition copy :: "'c memory \<Rightarrow> basic_string_view \<Rightarrow> const_pointer \<Rightarrow> size_type \<Rightarrow> size_type
    \<Rightarrow> exception + ('c memory \<times> size_type)" where
  "copy mem h dest count pos =
     (if m_size h < pos then Inl Out_of_range
      else let rcount = min count (m_size h - pos)
           in Inr (Traits_copy mem dest (m_data h + pos) (unat rcount), rcount))"

subsection \<open>compare and the comparison operators\<close>

text \<open>
  \<^verbatim>\<open>const size_t rlen = std::min(m_size, v.m_size);\<close>
  \<^verbatim>\<open>const int comparison = Traits_type::compare(m_data, v.m_data, rlen);\<close>
  \<^verbatim>\<open>if (comparison != 0) return comparison;\<close>
  \<^verbatim>\<open>if (m_size == v.m_size) return 0;\<close>
  \<^verbatim>\<open>return m_size < v.m_size ? -1 : 1;\<close>
\<close>

definition compare :: "('c::linorder) memory \<Rightarrow> basic_string_view \<Rightarrow> basic_string_view \<Rightarrow> int" where
  "compare mem h v =
     (let rlen = min (m_size h) (m_size v);
          comparison = Traits_compare mem (m_data h) (m_data v) (unat rlen)
      in if comparison \<noteq> 0 then comparison
         else if m_size h = m_size v then 0
         else if m_size h < m_size v then - 1 else 1)"

text \<open>
  \<^verbatim>\<open>compare(pos1, count1, v)\<close>: \<^verbatim>\<open>return substr(pos1, count1).compare(v);\<close>
  The argument of \<^verbatim>\<open>compare\<close> is a copy of the parameter \<^verbatim>\<open>v\<close>, a non-const
  lvalue: \<open>sv_copy\<close>, modelled from the spec.
\<close>

definition compare_sub :: "('c::linorder) memory \<Rightarrow> basic_string_view \<Rightarrow> size_type \<Rightarrow> size_type
    \<Rightarrow> basic_string_view \<Rightarrow> exception + int" where
  "compare_sub mem h pos1 count1 v =
     (case substr h pos1 count1 of
        Inl e \<Rightarrow> Inl e
      | Inr s \<Rightarrow> Inr (compare mem s (sv_copy v)))"

text \<open>
  \<^verbatim>\<open>compare(pos1, count1, v, pos2, count2)\<close>:
  \<^verbatim>\<open>return substr(pos1, count1).compare(v.substr(pos2, count2));\<close>
  The object expression \<^verbatim>\<open>substr(pos1, count1)\<close> is evaluated before the argument. The
  argument is the result of \<^verbatim>\<open>substr\<close> itself, a prvalue, and no copy is made.
\<close>

definition compare_sub_sub :: "('c::linorder) memory \<Rightarrow> basic_string_view \<Rightarrow> size_type \<Rightarrow> size_type
    \<Rightarrow> basic_string_view \<Rightarrow> size_type \<Rightarrow> size_type \<Rightarrow> exception + int" where
  "compare_sub_sub mem h pos1 count1 v pos2 count2 =
     (case substr h pos1 count1 of
        Inl e \<Rightarrow> Inl e
      | Inr s \<Rightarrow>
          (case substr v pos2 count2 of
             Inl e \<Rightarrow> Inl e
           | Inr t \<Rightarrow> Inr (compare mem s t)))"

text \<open>
  \<^verbatim>\<open>compare(pos1, count1, s, count2)\<close>:
  \<^verbatim>\<open>return substr(pos1, count1).compare(basic_string_view(s, count2));\<close>
\<close>

definition compare_sub_ptr :: "('c::linorder) memory \<Rightarrow> basic_string_view \<Rightarrow> size_type \<Rightarrow> size_type
    \<Rightarrow> const_pointer \<Rightarrow> size_type \<Rightarrow> exception + int" where
  "compare_sub_ptr mem h pos1 count1 s count2 =
     (case substr h pos1 count1 of
        Inl e \<Rightarrow> Inl e
      | Inr t \<Rightarrow> Inr (compare mem t (sv_ptr_count s count2)))"

text \<open>
  \<^verbatim>\<open>compare(const CharT* s) { return compare(basic_string_view(s)); }\<close>
  The view is constructed in place; its construction scans \<^verbatim>\<open>s\<close> and may not return.
\<close>

definition compare_cstr :: "('c::{linorder,zero}) memory \<Rightarrow> basic_string_view \<Rightarrow> const_pointer
    \<Rightarrow> int option" where
  "compare_cstr mem h s =
     (case sv_cstr mem s of
        None \<Rightarrow> None
      | Some v \<Rightarrow> Some (compare mem h v))"

text \<open>
  \<^verbatim>\<open>compare(pos1, count1, s)\<close>:
  \<^verbatim>\<open>return substr(pos1, count1).compare(basic_string_view(s));\<close>
  The object expression \<^verbatim>\<open>substr(pos1, count1)\<close> is evaluated, and throws, before the
  view of \<^verbatim>\<open>s\<close> is constructed.
\<close>

definition compare_sub_cstr :: "('c::{linorder,zero}) memory \<Rightarrow> basic_string_view \<Rightarrow> size_type
    \<Rightarrow> size_type \<Rightarrow> const_pointer \<Rightarrow> (exception + int) option" where
  "compare_sub_cstr mem h pos1 count1 s =
     (case substr h pos1 count1 of
        Inl e \<Rightarrow> Some (Inl e)
      | Inr t \<Rightarrow>
          (case sv_cstr mem s of
             None \<Rightarrow> None
           | Some v \<Rightarrow> Some (Inr (compare mem t v))))"

text \<open>
  The comparison operators, friends of the class (lines 730 to 752):
  \<^verbatim>\<open>operator==(a, b) { return a.compare(b) == 0; }\<close>, and the same with \<^verbatim>\<open>!=\<close>,
  \<^verbatim>\<open><\<close>, \<^verbatim>\<open>>\<close>, \<^verbatim>\<open><=\<close> and \<^verbatim>\<open>>=\<close>. In each, the argument of
  \<^verbatim>\<open>compare\<close> is a copy of the parameter \<^verbatim>\<open>b\<close>, a non-const lvalue: \<open>sv_copy\<close>,
  modelled from the spec.
\<close>

definition operator_eq :: "('c::linorder) memory \<Rightarrow> basic_string_view \<Rightarrow> basic_string_view \<Rightarrow> bool" where
  "operator_eq mem a b = (compare mem a (sv_copy b) = 0)"

definition operator_ne :: "('c::linorder) memory \<Rightarrow> basic_string_view \<Rightarrow> basic_string_view \<Rightarrow> bool" where
  "operator_ne mem a b = (compare mem a (sv_copy b) \<noteq> 0)"

definition operator_lt :: "('c::linorder) memory \<Rightarrow> basic_string_view \<Rightarrow> basic_string_view \<Rightarrow> bool" where
  "operator_lt mem a b = (compare mem a (sv_copy b) < 0)"

definition operator_gt :: "('c::linorder) memory \<Rightarrow> basic_string_view \<Rightarrow> basic_string_view \<Rightarrow> bool" where
  "operator_gt mem a b = (compare mem a (sv_copy b) > 0)"

definition operator_le :: "('c::linorder) memory \<Rightarrow> basic_string_view \<Rightarrow> basic_string_view \<Rightarrow> bool" where
  "operator_le mem a b = (compare mem a (sv_copy b) \<le> 0)"

definition operator_ge :: "('c::linorder) memory \<Rightarrow> basic_string_view \<Rightarrow> basic_string_view \<Rightarrow> bool" where
  "operator_ge mem a b = (compare mem a (sv_copy b) \<ge> 0)"

subsection \<open>starts_with and ends_with\<close>

text \<open>
  \<^verbatim>\<open>return m_size >= sv.m_size && substr(0, sv.m_size) == sv;\<close>
  The function is \<^verbatim>\<open>noexcept\<close> and calls \<^verbatim>\<open>substr\<close>, which can throw; the model
  keeps an exception of \<^verbatim>\<open>substr\<close> as the result \<open>Inl\<close>, so that its absence is a
  theorem and not an assumption. \<^verbatim>\<open>&&\<close> does not evaluate its right operand when the
  left one is false. The left operand of \<^verbatim>\<open>==\<close> is the result of \<^verbatim>\<open>substr\<close> itself;
  its right operand is a copy of the parameter \<^verbatim>\<open>sv\<close>, a non-const lvalue: \<open>sv_copy\<close>,
  modelled from the spec.
\<close>

definition starts_with :: "('c::linorder) memory \<Rightarrow> basic_string_view \<Rightarrow> basic_string_view
    \<Rightarrow> exception + bool" where
  "starts_with mem h sv =
     (if m_size h \<ge> m_size sv
      then (case substr h 0 (m_size sv) of
              Inl e \<Rightarrow> Inl e
            | Inr s \<Rightarrow> Inr (operator_eq mem s (sv_copy sv)))
      else Inr False)"

text \<open>
  \<^verbatim>\<open>return m_size >= sv.m_size && substr(m_size - sv.m_size, npos) == sv;\<close>
  As in \<^verbatim>\<open>starts_with\<close>, the right operand of \<^verbatim>\<open>==\<close> is a copy of the parameter
  \<^verbatim>\<open>sv\<close>: \<open>sv_copy\<close>, modelled from the spec.
\<close>

definition ends_with :: "('c::linorder) memory \<Rightarrow> basic_string_view \<Rightarrow> basic_string_view
    \<Rightarrow> exception + bool" where
  "ends_with mem h sv =
     (if m_size h \<ge> m_size sv
      then (case substr h (m_size h - m_size sv) npos of
              Inl e \<Rightarrow> Inl e
            | Inr s \<Rightarrow> Inr (operator_eq mem s (sv_copy sv)))
      else Inr False)"

text \<open>
  Modelled from the spec: \<^verbatim>\<open>Traits::eq(a, b)\<close> of \<^verbatim>\<open>std::char_traits\<close>, the
  equality of two characters.
\<close>

definition Traits_eq :: "'c \<Rightarrow> 'c \<Rightarrow> bool" where
  "Traits_eq a b = (a = b)"

text \<open>
  \<^verbatim>\<open>starts_with(value_type c) { return !empty() && Traits_type::eq(front(), c); }\<close>
  \<^verbatim>\<open>ends_with(CharT c) { return !empty() && Traits_type::eq(back(), c); }\<close>
\<close>

definition starts_with_char :: "'c memory \<Rightarrow> basic_string_view \<Rightarrow> 'c \<Rightarrow> bool" where
  "starts_with_char mem h c = (\<not> empty_sv h \<and> Traits_eq (front_sv mem h) c)"

definition ends_with_char :: "'c memory \<Rightarrow> basic_string_view \<Rightarrow> 'c \<Rightarrow> bool" where
  "ends_with_char mem h c = (\<not> empty_sv h \<and> Traits_eq (back_sv mem h) c)"

text \<open>
  \<^verbatim>\<open>starts_with(const_pointer s) { return starts_with(basic_string_view<CharT, Traits>(s)); }\<close>
  \<^verbatim>\<open>ends_with(const CharT* s) { return ends_with(basic_string_view<CharT, Traits>(s)); }\<close>
  The view is constructed in place; its construction scans \<^verbatim>\<open>s\<close> and may not return.
\<close>

definition starts_with_cstr :: "('c::{linorder,zero}) memory \<Rightarrow> basic_string_view \<Rightarrow> const_pointer
    \<Rightarrow> (exception + bool) option" where
  "starts_with_cstr mem h s =
     (case sv_cstr mem s of
        None \<Rightarrow> None
      | Some v \<Rightarrow> Some (starts_with mem h v))"

definition ends_with_cstr :: "('c::{linorder,zero}) memory \<Rightarrow> basic_string_view \<Rightarrow> const_pointer
    \<Rightarrow> (exception + bool) option" where
  "ends_with_cstr mem h s =
     (case sv_cstr mem s of
        None \<Rightarrow> None
      | Some v \<Rightarrow> Some (ends_with mem h v))"

subsection \<open>find\<close>

text \<open>
  The loop of \<^verbatim>\<open>find\<close>:
  \<^verbatim>\<open>while (pos + v.m_size <= m_size) {\<close>
  \<^verbatim>\<open>  if (Traits_type::compare(m_data + pos, v.m_data, v.m_size) == 0) return pos;\<close>
  \<^verbatim>\<open>  pos++; }\<close>
  \<^verbatim>\<open>return npos;\<close>
  The sum \<^verbatim>\<open>pos + v.m_size\<close> and the increment wrap at \<open>2 ^ 64\<close>, so the loop need not
  end on every input: the result is an option, \<open>None\<close> when the loop runs forever.
\<close>

partial_function (option) find_loop :: "('c::linorder) memory \<Rightarrow> basic_string_view \<Rightarrow> basic_string_view
    \<Rightarrow> size_type \<Rightarrow> size_type option" where
  "find_loop mem h v pos =
     (if pos + m_size v \<le> m_size h
      then (if Traits_compare mem (m_data h + pos) (m_data v) (unat (m_size v)) = 0
            then Some pos
            else find_loop mem h v (pos + 1))
      else Some npos)"

text \<open>
  \<^verbatim>\<open>if (empty() && v.empty() && pos == 0) return 0;\<close>
  \<^verbatim>\<open>if (pos > m_size || v.m_size > (m_size - pos)) return npos;\<close>
  and then the loop.
\<close>

definition find_sv :: "('c::linorder) memory \<Rightarrow> basic_string_view \<Rightarrow> basic_string_view \<Rightarrow> size_type
    \<Rightarrow> size_type option" where
  "find_sv mem h v pos =
     (if empty_sv h \<and> empty_sv v \<and> pos = 0 then Some 0
      else if pos > m_size h \<or> m_size v > m_size h - pos then Some npos
      else find_loop mem h v pos)"

text \<open>
  \<^verbatim>\<open>find(CharT ch, size_type pos) { return find(basic_string_view(&ch, 1), pos); }\<close>
  The needle is the parameter \<^verbatim>\<open>ch\<close> itself, one character at the address of the
  parameter. That address is the argument \<open>pc\<close> of the model, and the memory of the call is
  the memory with \<open>ch\<close> stored there.
\<close>

definition find_char :: "('c::linorder) memory \<Rightarrow> basic_string_view \<Rightarrow> 'c \<Rightarrow> size_type
    \<Rightarrow> const_pointer \<Rightarrow> size_type option" where
  "find_char mem h ch pos pc = find_sv (mem(pc := ch)) h (sv_ptr_count pc 1) pos"

text \<open>
  \<^verbatim>\<open>find(const CharT* s, size_type pos, size_type count)\<close>:
  \<^verbatim>\<open>return find(basic_string_view(s, count), pos);\<close>
\<close>

definition find_ptr :: "('c::linorder) memory \<Rightarrow> basic_string_view \<Rightarrow> const_pointer \<Rightarrow> size_type
    \<Rightarrow> size_type \<Rightarrow> size_type option" where
  "find_ptr mem h s pos count = find_sv mem h (sv_ptr_count s count) pos"

text \<open>
  \<^verbatim>\<open>find(const CharT* s, size_type pos) { return find(basic_string_view(s), pos); }\<close>
\<close>

definition find_cstr :: "('c::{linorder,zero}) memory \<Rightarrow> basic_string_view \<Rightarrow> const_pointer
    \<Rightarrow> size_type \<Rightarrow> size_type option" where
  "find_cstr mem h s pos =
     (case sv_cstr mem s of
        None \<Rightarrow> None
      | Some v \<Rightarrow> find_sv mem h v pos)"

subsection \<open>rfind\<close>

text \<open>
  The loop of \<^verbatim>\<open>rfind\<close>:
  \<^verbatim>\<open>while (pos != npos) {\<close>
  \<^verbatim>\<open>  if (Traits_type::compare(m_data + pos, s.m_data, s.m_size) == 0) return pos;\<close>
  \<^verbatim>\<open>  pos--; }\<close>
  \<^verbatim>\<open>return npos;\<close>
  The decrement of 0 wraps to \<open>npos\<close>, which ends the loop.
\<close>

function rfind_loop :: "('c::linorder) memory \<Rightarrow> basic_string_view \<Rightarrow> basic_string_view
    \<Rightarrow> size_type \<Rightarrow> size_type" where
  "rfind_loop mem h s pos =
     (if pos \<noteq> npos
      then (if Traits_compare mem (m_data h + pos) (m_data s) (unat (m_size s)) = 0
            then pos
            else rfind_loop mem h s (pos - 1))
      else npos)"
  by pat_completeness auto
termination
proof (relation "measure (\<lambda>(mem, h, s, pos). unat (pos + 1))")
  show "wf (measure (\<lambda>(mem :: 'c memory, h :: basic_string_view, s :: basic_string_view, pos :: size_type). unat (pos + 1)))"
    by simp
next
  fix mem :: "'c memory" and h s :: basic_string_view and pos :: size_type
  assume "pos \<noteq> npos"
  then have "1 + pos \<noteq> 0"
    by (simp add: npos_def eq_neg_iff_add_eq_0 add.commute)
  then have "unat (pos - 1 + 1) < unat (pos + 1)"
    using unatSuc [of pos] by (simp add: add.commute)
  then show "((mem, h, s, pos - 1), (mem, h, s, pos)) \<in> measure (\<lambda>(mem, h, s, pos). unat (pos + 1))"
    by simp
qed

declare rfind_loop.simps [simp del]

text \<open>
  \<^verbatim>\<open>if (s.empty()) return std::min(pos, m_size);\<close>
  \<^verbatim>\<open>if (s.m_size > m_size) return npos;\<close>
  \<^verbatim>\<open>pos = std::min(pos, m_size - s.m_size);\<close>
  and then the loop.
\<close>

definition rfind :: "('c::linorder) memory \<Rightarrow> basic_string_view \<Rightarrow> basic_string_view \<Rightarrow> size_type
    \<Rightarrow> size_type" where
  "rfind mem h s pos =
     (if empty_sv s then min pos (m_size h)
      else if m_size s > m_size h then npos
      else rfind_loop mem h s (min pos (m_size h - m_size s)))"

text \<open>
  The other overloads of \<^verbatim>\<open>rfind\<close>, as those of \<^verbatim>\<open>find\<close>:
  \<^verbatim>\<open>rfind(value_type c, size_type pos) { return rfind(basic_string_view(&c, 1), pos); }\<close>
  \<^verbatim>\<open>rfind(const_pointer s, size_type pos, size_type n) { return rfind(basic_string_view(s, n), pos); }\<close>
  \<^verbatim>\<open>rfind(const_pointer s, size_type pos) { return rfind(basic_string_view(s), pos); }\<close>
\<close>

definition rfind_char :: "('c::linorder) memory \<Rightarrow> basic_string_view \<Rightarrow> 'c \<Rightarrow> size_type
    \<Rightarrow> const_pointer \<Rightarrow> size_type" where
  "rfind_char mem h c pos pc = rfind (mem(pc := c)) h (sv_ptr_count pc 1) pos"

definition rfind_ptr :: "('c::linorder) memory \<Rightarrow> basic_string_view \<Rightarrow> const_pointer \<Rightarrow> size_type
    \<Rightarrow> size_type \<Rightarrow> size_type" where
  "rfind_ptr mem h s pos n = rfind mem h (sv_ptr_count s n) pos"

definition rfind_cstr :: "('c::{linorder,zero}) memory \<Rightarrow> basic_string_view \<Rightarrow> const_pointer
    \<Rightarrow> size_type \<Rightarrow> size_type option" where
  "rfind_cstr mem h s pos =
     (case sv_cstr mem s of
        None \<Rightarrow> None
      | Some v \<Rightarrow> Some (rfind mem h v pos))"

subsection \<open>find_first_of, find_last_of, find_first_not_of, find_last_not_of\<close>

text \<open>
  Modelled from the spec: \<^verbatim>\<open>Traits::find(p, n, c)\<close> of the standard library's
  \<^verbatim>\<open>std::char_traits\<close>, which is not part of the repository: the pointer to the first
  of the \<open>n\<close> characters from \<open>p\<close> on that equals \<open>c\<close>, and the null pointer when none does
  ("whose character appears anywhere in the set").
\<close>

fun Traits_find :: "'c memory \<Rightarrow> const_pointer \<Rightarrow> nat \<Rightarrow> 'c \<Rightarrow> const_pointer" where
  "Traits_find mem p 0 c = nullptr"
| "Traits_find mem p (Suc n) c = (if mem p = c then p else Traits_find mem (p + 1) n c)"

text \<open>
  \<^verbatim>\<open>find_first_of(basic_string_view s, size_type pos)\<close>:
  \<^verbatim>\<open>while (pos < m_size) {\<close>
  \<^verbatim>\<open>  if (Traits_type::find(s.m_data, s.m_size, m_data[pos]) != nullptr) return pos;\<close>
  \<^verbatim>\<open>  pos++; }\<close>
  \<^verbatim>\<open>return npos;\<close>
\<close>

function find_first_of :: "'c memory \<Rightarrow> basic_string_view \<Rightarrow> basic_string_view
    \<Rightarrow> size_type \<Rightarrow> size_type" where
  "find_first_of mem h s pos =
     (if pos < m_size h
      then (if Traits_find mem (m_data s) (unat (m_size s)) (mem (m_data h + pos)) \<noteq> nullptr
            then pos
            else find_first_of mem h s (pos + 1))
      else npos)"
  by pat_completeness auto
termination
proof (relation "measure (\<lambda>(mem, h, s, pos). unat (m_size h) - unat pos)")
  show "wf (measure (\<lambda>(mem :: 'c memory, h :: basic_string_view, s :: basic_string_view, pos :: size_type). unat (m_size h) - unat pos))"
    by simp
next
  fix mem :: "'c memory" and h s :: basic_string_view and pos :: size_type
  assume below: "pos < m_size h"
  then have "pos \<noteq> - 1"
    using word_n1_ge [of "m_size h"] by auto
  then have "1 + pos \<noteq> 0"
    by (simp add: eq_neg_iff_add_eq_0 add.commute)
  then have "unat (pos + 1) = Suc (unat pos)"
    using unatSuc [of pos] by (simp add: add.commute)
  moreover from below have "unat pos < unat (m_size h)"
    by (simp add: word_less_nat_alt)
  ultimately show "((mem, h, s, pos + 1), (mem, h, s, pos))
      \<in> measure (\<lambda>(mem, h, s, pos). unat (m_size h) - unat pos)"
    by simp
qed

declare find_first_of.simps [simp del]

text \<open>
  The other overloads of \<^verbatim>\<open>find_first_of\<close>, as those of \<^verbatim>\<open>find\<close>:
  \<^verbatim>\<open>find_first_of(value_type c, size_type pos) { return find_first_of(basic_string_view(&c, 1), pos); }\<close>
  \<^verbatim>\<open>find_first_of(const_pointer s, size_type pos, size_type n) { return find_first_of(basic_string_view(s, n), pos); }\<close>
  \<^verbatim>\<open>find_first_of(const_pointer s, size_type pos) { return find_first_of(basic_string_view(s), pos); }\<close>
\<close>

definition find_first_of_char :: "'c memory \<Rightarrow> basic_string_view \<Rightarrow> 'c \<Rightarrow> size_type
    \<Rightarrow> const_pointer \<Rightarrow> size_type" where
  "find_first_of_char mem h c pos pc = find_first_of (mem(pc := c)) h (sv_ptr_count pc 1) pos"

definition find_first_of_ptr :: "'c memory \<Rightarrow> basic_string_view \<Rightarrow> const_pointer \<Rightarrow> size_type
    \<Rightarrow> size_type \<Rightarrow> size_type" where
  "find_first_of_ptr mem h s pos n = find_first_of mem h (sv_ptr_count s n) pos"

definition find_first_of_cstr :: "('c::zero) memory \<Rightarrow> basic_string_view \<Rightarrow> const_pointer
    \<Rightarrow> size_type \<Rightarrow> size_type option" where
  "find_first_of_cstr mem h s pos =
     (case sv_cstr mem s of
        None \<Rightarrow> None
      | Some v \<Rightarrow> Some (find_first_of mem h v pos))"

text \<open>
  The loop of \<^verbatim>\<open>find_last_of\<close>:
  \<^verbatim>\<open>while (pos != npos) {\<close>
  \<^verbatim>\<open>  if (Traits_type::find(s.m_data, s.m_size, m_data[pos]) != nullptr) return pos;\<close>
  \<^verbatim>\<open>  pos--; }\<close>
  \<^verbatim>\<open>return npos;\<close>
\<close>

function find_last_of_loop :: "'c memory \<Rightarrow> basic_string_view \<Rightarrow> basic_string_view
    \<Rightarrow> size_type \<Rightarrow> size_type" where
  "find_last_of_loop mem h s pos =
     (if pos \<noteq> npos
      then (if Traits_find mem (m_data s) (unat (m_size s)) (mem (m_data h + pos)) \<noteq> nullptr
            then pos
            else find_last_of_loop mem h s (pos - 1))
      else npos)"
  by pat_completeness auto
termination
proof (relation "measure (\<lambda>(mem, h, s, pos). unat (pos + 1))")
  show "wf (measure (\<lambda>(mem :: 'c memory, h :: basic_string_view, s :: basic_string_view, pos :: size_type). unat (pos + 1)))"
    by simp
next
  fix mem :: "'c memory" and h s :: basic_string_view and pos :: size_type
  assume "pos \<noteq> npos"
  then have "1 + pos \<noteq> 0"
    by (simp add: npos_def eq_neg_iff_add_eq_0 add.commute)
  then have "unat (pos - 1 + 1) < unat (pos + 1)"
    using unatSuc [of pos] by (simp add: add.commute)
  then show "((mem, h, s, pos - 1), (mem, h, s, pos)) \<in> measure (\<lambda>(mem, h, s, pos). unat (pos + 1))"
    by simp
qed

declare find_last_of_loop.simps [simp del]

text \<open>
  \<^verbatim>\<open>if (empty()) return npos;\<close>
  \<^verbatim>\<open>pos = std::min(pos, m_size - 1);\<close>
  and then the loop.
\<close>

definition find_last_of :: "'c memory \<Rightarrow> basic_string_view \<Rightarrow> basic_string_view \<Rightarrow> size_type
    \<Rightarrow> size_type" where
  "find_last_of mem h s pos =
     (if empty_sv h then npos
      else find_last_of_loop mem h s (min pos (m_size h - 1)))"

text \<open>
  The other overloads of \<^verbatim>\<open>find_last_of\<close>, as those of \<^verbatim>\<open>find\<close>:
  \<^verbatim>\<open>find_last_of(value_type c, size_type pos) { return find_last_of(basic_string_view(&c, 1), pos); }\<close>
  \<^verbatim>\<open>find_last_of(const_pointer s, size_type pos, size_type n) { return find_last_of(basic_string_view(s, n), pos); }\<close>
  \<^verbatim>\<open>find_last_of(const_pointer s, size_type pos) { return find_last_of(basic_string_view(s), pos); }\<close>
\<close>

definition find_last_of_char :: "'c memory \<Rightarrow> basic_string_view \<Rightarrow> 'c \<Rightarrow> size_type
    \<Rightarrow> const_pointer \<Rightarrow> size_type" where
  "find_last_of_char mem h c pos pc = find_last_of (mem(pc := c)) h (sv_ptr_count pc 1) pos"

definition find_last_of_ptr :: "'c memory \<Rightarrow> basic_string_view \<Rightarrow> const_pointer \<Rightarrow> size_type
    \<Rightarrow> size_type \<Rightarrow> size_type" where
  "find_last_of_ptr mem h s pos n = find_last_of mem h (sv_ptr_count s n) pos"

definition find_last_of_cstr :: "('c::zero) memory \<Rightarrow> basic_string_view \<Rightarrow> const_pointer
    \<Rightarrow> size_type \<Rightarrow> size_type option" where
  "find_last_of_cstr mem h s pos =
     (case sv_cstr mem s of
        None \<Rightarrow> None
      | Some v \<Rightarrow> Some (find_last_of mem h v pos))"

text \<open>
  \<^verbatim>\<open>find_first_not_of(basic_string_view s, size_type pos)\<close>:
  \<^verbatim>\<open>while (pos < m_size) {\<close>
  \<^verbatim>\<open>  if (Traits_type::find(s.m_data, s.m_size, m_data[pos]) == nullptr) return pos;\<close>
  \<^verbatim>\<open>  pos++; }\<close>
  \<^verbatim>\<open>return npos;\<close>
\<close>

function find_first_not_of :: "'c memory \<Rightarrow> basic_string_view \<Rightarrow> basic_string_view
    \<Rightarrow> size_type \<Rightarrow> size_type" where
  "find_first_not_of mem h s pos =
     (if pos < m_size h
      then (if Traits_find mem (m_data s) (unat (m_size s)) (mem (m_data h + pos)) = nullptr
            then pos
            else find_first_not_of mem h s (pos + 1))
      else npos)"
  by pat_completeness auto
termination
proof (relation "measure (\<lambda>(mem, h, s, pos). unat (m_size h) - unat pos)")
  show "wf (measure (\<lambda>(mem :: 'c memory, h :: basic_string_view, s :: basic_string_view, pos :: size_type). unat (m_size h) - unat pos))"
    by simp
next
  fix mem :: "'c memory" and h s :: basic_string_view and pos :: size_type
  assume below: "pos < m_size h"
  then have "pos \<noteq> - 1"
    using word_n1_ge [of "m_size h"] by auto
  then have "1 + pos \<noteq> 0"
    by (simp add: eq_neg_iff_add_eq_0 add.commute)
  then have "unat (pos + 1) = Suc (unat pos)"
    using unatSuc [of pos] by (simp add: add.commute)
  moreover from below have "unat pos < unat (m_size h)"
    by (simp add: word_less_nat_alt)
  ultimately show "((mem, h, s, pos + 1), (mem, h, s, pos))
      \<in> measure (\<lambda>(mem, h, s, pos). unat (m_size h) - unat pos)"
    by simp
qed

declare find_first_not_of.simps [simp del]

text \<open>
  The other overloads of \<^verbatim>\<open>find_first_not_of\<close>, as those of \<^verbatim>\<open>find\<close>:
  \<^verbatim>\<open>find_first_not_of(value_type c, size_type pos) { return find_first_not_of(basic_string_view(&c, 1), pos); }\<close>
  \<^verbatim>\<open>find_first_not_of(const_pointer s, size_type pos, size_type n) { return find_first_not_of(basic_string_view(s, n), pos); }\<close>
  \<^verbatim>\<open>find_first_not_of(const_pointer s, size_type pos) { return find_first_not_of(basic_string_view(s), pos); }\<close>
\<close>

definition find_first_not_of_char :: "'c memory \<Rightarrow> basic_string_view \<Rightarrow> 'c \<Rightarrow> size_type
    \<Rightarrow> const_pointer \<Rightarrow> size_type" where
  "find_first_not_of_char mem h c pos pc = find_first_not_of (mem(pc := c)) h (sv_ptr_count pc 1) pos"

definition find_first_not_of_ptr :: "'c memory \<Rightarrow> basic_string_view \<Rightarrow> const_pointer \<Rightarrow> size_type
    \<Rightarrow> size_type \<Rightarrow> size_type" where
  "find_first_not_of_ptr mem h s pos n = find_first_not_of mem h (sv_ptr_count s n) pos"

definition find_first_not_of_cstr :: "('c::zero) memory \<Rightarrow> basic_string_view \<Rightarrow> const_pointer
    \<Rightarrow> size_type \<Rightarrow> size_type option" where
  "find_first_not_of_cstr mem h s pos =
     (case sv_cstr mem s of
        None \<Rightarrow> None
      | Some v \<Rightarrow> Some (find_first_not_of mem h v pos))"

text \<open>
  The loop of \<^verbatim>\<open>find_last_not_of\<close>:
  \<^verbatim>\<open>while (pos != npos) {\<close>
  \<^verbatim>\<open>  if (Traits_type::find(s.m_data, s.m_size, m_data[pos]) == nullptr) return pos;\<close>
  \<^verbatim>\<open>  pos--; }\<close>
  \<^verbatim>\<open>return npos;\<close>
\<close>

function find_last_not_of_loop :: "'c memory \<Rightarrow> basic_string_view \<Rightarrow> basic_string_view
    \<Rightarrow> size_type \<Rightarrow> size_type" where
  "find_last_not_of_loop mem h s pos =
     (if pos \<noteq> npos
      then (if Traits_find mem (m_data s) (unat (m_size s)) (mem (m_data h + pos)) = nullptr
            then pos
            else find_last_not_of_loop mem h s (pos - 1))
      else npos)"
  by pat_completeness auto
termination
proof (relation "measure (\<lambda>(mem, h, s, pos). unat (pos + 1))")
  show "wf (measure (\<lambda>(mem :: 'c memory, h :: basic_string_view, s :: basic_string_view, pos :: size_type). unat (pos + 1)))"
    by simp
next
  fix mem :: "'c memory" and h s :: basic_string_view and pos :: size_type
  assume "pos \<noteq> npos"
  then have "1 + pos \<noteq> 0"
    by (simp add: npos_def eq_neg_iff_add_eq_0 add.commute)
  then have "unat (pos - 1 + 1) < unat (pos + 1)"
    using unatSuc [of pos] by (simp add: add.commute)
  then show "((mem, h, s, pos - 1), (mem, h, s, pos)) \<in> measure (\<lambda>(mem, h, s, pos). unat (pos + 1))"
    by simp
qed

declare find_last_not_of_loop.simps [simp del]

text \<open>
  \<^verbatim>\<open>if (empty()) return npos;\<close>
  \<^verbatim>\<open>pos = std::min(pos, m_size - 1);\<close>
  and then the loop.
\<close>

definition find_last_not_of :: "'c memory \<Rightarrow> basic_string_view \<Rightarrow> basic_string_view \<Rightarrow> size_type
    \<Rightarrow> size_type" where
  "find_last_not_of mem h s pos =
     (if empty_sv h then npos
      else find_last_not_of_loop mem h s (min pos (m_size h - 1)))"

text \<open>
  The other overloads of \<^verbatim>\<open>find_last_not_of\<close>, as those of \<^verbatim>\<open>find\<close>:
  \<^verbatim>\<open>find_last_not_of(value_type c, size_type pos) { return find_last_not_of(basic_string_view(&c, 1), pos); }\<close>
  \<^verbatim>\<open>find_last_not_of(const_pointer s, size_type pos, size_type n) { return find_last_not_of(basic_string_view(s, n), pos); }\<close>
  \<^verbatim>\<open>find_last_not_of(const_pointer s, size_type pos) { return find_last_not_of(basic_string_view(s), pos); }\<close>
\<close>

definition find_last_not_of_char :: "'c memory \<Rightarrow> basic_string_view \<Rightarrow> 'c \<Rightarrow> size_type
    \<Rightarrow> const_pointer \<Rightarrow> size_type" where
  "find_last_not_of_char mem h c pos pc = find_last_not_of (mem(pc := c)) h (sv_ptr_count pc 1) pos"

definition find_last_not_of_ptr :: "'c memory \<Rightarrow> basic_string_view \<Rightarrow> const_pointer \<Rightarrow> size_type
    \<Rightarrow> size_type \<Rightarrow> size_type" where
  "find_last_not_of_ptr mem h s pos n = find_last_not_of mem h (sv_ptr_count s n) pos"

definition find_last_not_of_cstr :: "('c::zero) memory \<Rightarrow> basic_string_view \<Rightarrow> const_pointer
    \<Rightarrow> size_type \<Rightarrow> size_type option" where
  "find_last_not_of_cstr mem h s pos =
     (case sv_cstr mem s of
        None \<Rightarrow> None
      | Some v \<Rightarrow> Some (find_last_not_of mem h v pos))"

section \<open>The public operations\<close>

text \<open>
  The operations of the public section of the class and the comparison operators declared in
  it, each with its arguments, and what a call gives: a value, an exception, or no result
  when the call does not return. The two template constructors that the header declares and
  does not define and the deleted constructor from \<^verbatim>\<open>std::nullptr_t\<close> cannot be called.
  The stream insertion \<^verbatim>\<open>operator<<\<close>, the literal suffix \<^verbatim>\<open>_sv\<close> and the hash
  stand outside the view: the spec names them external collaborators. An operation with a
  \<^verbatim>\<open>throw\<close> in its body, or that calls one that has, is a function to a sum above, and
  its exception is handed on here; an operation whose body neither throws nor calls one
  that does is a function to its value above, and \<open>returns\<close> that value here.
\<close>

datatype 'c returned =
    Ret_view basic_string_view
  | Ret_views basic_string_view basic_string_view
  | Ret_char 'c
  | Ret_pointer const_pointer
  | Ret_size size_type
  | Ret_bool bool
  | Ret_int int
  | Ret_copied "'c memory" size_type

type_synonym 'c outcome = "(exception + 'c returned) option"

text \<open>
  A call that returns \<open>x\<close>; a call that returns or throws; and a call that goes on with \<open>k\<close>
  when an earlier step returned.
\<close>

definition returns :: "('a \<Rightarrow> 'c returned) \<Rightarrow> 'a \<Rightarrow> 'c outcome" where
  "returns ret x = Some (Inr (ret x))"

definition returns_or_throws :: "('a \<Rightarrow> 'c returned) \<Rightarrow> exception + 'a \<Rightarrow> 'c outcome" where
  "returns_or_throws ret x = (case x of Inl e \<Rightarrow> Some (Inl e) | Inr y \<Rightarrow> Some (Inr (ret y)))"

definition if_it_returns :: "('a \<Rightarrow> 'c outcome) \<Rightarrow> 'a option \<Rightarrow> 'c outcome" where
  "if_it_returns k x = (case x of None \<Rightarrow> None | Some y \<Rightarrow> k y)"

text \<open>
  The constructors and the assignment. The view of the call is the source of the copy and
  the target of the assignment; the other constructors do not read it.
\<close>

datatype construct =
    Ctor_default
  | Ctor_copy
  | Ctor_pointer const_pointer size_type
  | Ctor_c_string const_pointer
  | Assign basic_string_view

primrec call_construct :: "('c::zero) memory \<Rightarrow> basic_string_view \<Rightarrow> construct \<Rightarrow> 'c outcome" where
  "call_construct mem h Ctor_default = returns Ret_view sv_default"
| "call_construct mem h Ctor_copy = returns Ret_view (copy_ctor h)"
| "call_construct mem h (Ctor_pointer s count) = returns Ret_view (sv_ptr_count s count)"
| "call_construct mem h (Ctor_c_string s) = if_it_returns (returns Ret_view) (sv_cstr mem s)"
| "call_construct mem h (Assign view) = returns Ret_view (operator_assign h view)"

datatype iterator = Begin | Cbegin | End | Cend | Rbegin | Crbegin | Rend | Crend

primrec call_iterator :: "basic_string_view \<Rightarrow> iterator \<Rightarrow> 'c outcome" where
  "call_iterator h Begin = returns Ret_pointer (begin_sv h)"
| "call_iterator h Cbegin = returns Ret_pointer (cbegin h)"
| "call_iterator h End = returns Ret_pointer (end_sv h)"
| "call_iterator h Cend = returns Ret_pointer (cend h)"
| "call_iterator h Rbegin = returns Ret_pointer (rbegin h)"
| "call_iterator h Crbegin = returns Ret_pointer (crbegin h)"
| "call_iterator h Rend = returns Ret_pointer (rend h)"
| "call_iterator h Crend = returns Ret_pointer (crend h)"

datatype access = Index size_type | At size_type | Front | Back | Data

primrec call_access :: "'c memory \<Rightarrow> basic_string_view \<Rightarrow> access \<Rightarrow> 'c outcome" where
  "call_access mem h (Index pos) = returns Ret_char (operator_index mem h pos)"
| "call_access mem h (At pos) = returns_or_throws Ret_char (at mem h pos)"
| "call_access mem h Front = returns Ret_char (front_sv mem h)"
| "call_access mem h Back = returns Ret_char (back_sv mem h)"
| "call_access mem h Data = returns Ret_pointer (data_sv h)"

datatype capacity = Size | Length | Max_size | Empty

primrec call_capacity :: "basic_string_view \<Rightarrow> capacity \<Rightarrow> 'c outcome" where
  "call_capacity h Size = returns Ret_size (size_sv h)"
| "call_capacity h Length = returns Ret_size (length_sv h)"
| "call_capacity h Max_size = returns Ret_size (max_size h)"
| "call_capacity h Empty = returns Ret_bool (empty_sv h)"

datatype modifier = Remove_prefix size_type | Remove_suffix size_type | Swap basic_string_view

primrec call_modifier :: "basic_string_view \<Rightarrow> modifier \<Rightarrow> 'c outcome" where
  "call_modifier h (Remove_prefix n) = returns Ret_view (remove_prefix h n)"
| "call_modifier h (Remove_suffix n) = returns Ret_view (remove_suffix h n)"
| "call_modifier h (Swap v) = returns (\<lambda>(this, v'). Ret_views this v') (swap h v)"

text \<open>The six overloads of \<^verbatim>\<open>compare\<close>, in the order of the source.\<close>

datatype comparison =
    Compare_view basic_string_view
  | Compare_sub size_type size_type basic_string_view
  | Compare_sub_sub size_type size_type basic_string_view size_type size_type
  | Compare_c_string const_pointer
  | Compare_sub_c_string size_type size_type const_pointer
  | Compare_sub_pointer size_type size_type const_pointer size_type

primrec call_compare :: "('c::{linorder,zero}) memory \<Rightarrow> basic_string_view \<Rightarrow> comparison \<Rightarrow> 'c outcome" where
  "call_compare mem h (Compare_view v) = returns Ret_int (compare mem h v)"
| "call_compare mem h (Compare_sub pos1 count1 v) =
     returns_or_throws Ret_int (compare_sub mem h pos1 count1 v)"
| "call_compare mem h (Compare_sub_sub pos1 count1 v pos2 count2) =
     returns_or_throws Ret_int (compare_sub_sub mem h pos1 count1 v pos2 count2)"
| "call_compare mem h (Compare_c_string s) = if_it_returns (returns Ret_int) (compare_cstr mem h s)"
| "call_compare mem h (Compare_sub_c_string pos1 count1 s) =
     if_it_returns (returns_or_throws Ret_int) (compare_sub_cstr mem h pos1 count1 s)"
| "call_compare mem h (Compare_sub_pointer pos1 count1 s count2) =
     returns_or_throws Ret_int (compare_sub_ptr mem h pos1 count1 s count2)"

text \<open>The three overloads of \<^verbatim>\<open>starts_with\<close> and of \<^verbatim>\<open>ends_with\<close>.\<close>

datatype 'c affix = Affix_view basic_string_view | Affix_char 'c | Affix_c_string const_pointer

primrec call_starts_with :: "('c::{linorder,zero}) memory \<Rightarrow> basic_string_view \<Rightarrow> 'c affix \<Rightarrow> 'c outcome" where
  "call_starts_with mem h (Affix_view sv) = returns_or_throws Ret_bool (starts_with mem h sv)"
| "call_starts_with mem h (Affix_char c) = returns Ret_bool (starts_with_char mem h c)"
| "call_starts_with mem h (Affix_c_string s) =
     if_it_returns (returns_or_throws Ret_bool) (starts_with_cstr mem h s)"

primrec call_ends_with :: "('c::{linorder,zero}) memory \<Rightarrow> basic_string_view \<Rightarrow> 'c affix \<Rightarrow> 'c outcome" where
  "call_ends_with mem h (Affix_view sv) = returns_or_throws Ret_bool (ends_with mem h sv)"
| "call_ends_with mem h (Affix_char c) = returns Ret_bool (ends_with_char mem h c)"
| "call_ends_with mem h (Affix_c_string s) =
     if_it_returns (returns_or_throws Ret_bool) (ends_with_cstr mem h s)"

text \<open>
  The four overloads each of the six searches: the needle is a view, a character (with the
  address of the parameter that holds it), a pointer with a count, or a null-terminated
  string.
\<close>

datatype 'c needle =
    Needle_view basic_string_view
  | Needle_char 'c const_pointer
  | Needle_pointer const_pointer size_type
  | Needle_c_string const_pointer

datatype search =
  Find | Rfind | Find_first_of | Find_last_of | Find_first_not_of | Find_last_not_of

primrec call_find :: "('c::{linorder,zero}) memory \<Rightarrow> basic_string_view \<Rightarrow> size_type \<Rightarrow> 'c needle \<Rightarrow> 'c outcome" where
  "call_find mem h pos (Needle_view v) = if_it_returns (returns Ret_size) (find_sv mem h v pos)"
| "call_find mem h pos (Needle_char ch pc) = if_it_returns (returns Ret_size) (find_char mem h ch pos pc)"
| "call_find mem h pos (Needle_pointer s count) = if_it_returns (returns Ret_size) (find_ptr mem h s pos count)"
| "call_find mem h pos (Needle_c_string s) = if_it_returns (returns Ret_size) (find_cstr mem h s pos)"

primrec call_rfind :: "('c::{linorder,zero}) memory \<Rightarrow> basic_string_view \<Rightarrow> size_type \<Rightarrow> 'c needle \<Rightarrow> 'c outcome" where
  "call_rfind mem h pos (Needle_view s) = returns Ret_size (rfind mem h s pos)"
| "call_rfind mem h pos (Needle_char c pc) = returns Ret_size (rfind_char mem h c pos pc)"
| "call_rfind mem h pos (Needle_pointer s n) = returns Ret_size (rfind_ptr mem h s pos n)"
| "call_rfind mem h pos (Needle_c_string s) = if_it_returns (returns Ret_size) (rfind_cstr mem h s pos)"

primrec call_find_first_of :: "('c::{linorder,zero}) memory \<Rightarrow> basic_string_view \<Rightarrow> size_type \<Rightarrow> 'c needle \<Rightarrow> 'c outcome" where
  "call_find_first_of mem h pos (Needle_view s) = returns Ret_size (find_first_of mem h s pos)"
| "call_find_first_of mem h pos (Needle_char c pc) = returns Ret_size (find_first_of_char mem h c pos pc)"
| "call_find_first_of mem h pos (Needle_pointer s n) = returns Ret_size (find_first_of_ptr mem h s pos n)"
| "call_find_first_of mem h pos (Needle_c_string s) = if_it_returns (returns Ret_size) (find_first_of_cstr mem h s pos)"

primrec call_find_last_of :: "('c::{linorder,zero}) memory \<Rightarrow> basic_string_view \<Rightarrow> size_type \<Rightarrow> 'c needle \<Rightarrow> 'c outcome" where
  "call_find_last_of mem h pos (Needle_view s) = returns Ret_size (find_last_of mem h s pos)"
| "call_find_last_of mem h pos (Needle_char c pc) = returns Ret_size (find_last_of_char mem h c pos pc)"
| "call_find_last_of mem h pos (Needle_pointer s n) = returns Ret_size (find_last_of_ptr mem h s pos n)"
| "call_find_last_of mem h pos (Needle_c_string s) = if_it_returns (returns Ret_size) (find_last_of_cstr mem h s pos)"

primrec call_find_first_not_of :: "('c::{linorder,zero}) memory \<Rightarrow> basic_string_view \<Rightarrow> size_type \<Rightarrow> 'c needle \<Rightarrow> 'c outcome" where
  "call_find_first_not_of mem h pos (Needle_view s) = returns Ret_size (find_first_not_of mem h s pos)"
| "call_find_first_not_of mem h pos (Needle_char c pc) = returns Ret_size (find_first_not_of_char mem h c pos pc)"
| "call_find_first_not_of mem h pos (Needle_pointer s n) = returns Ret_size (find_first_not_of_ptr mem h s pos n)"
| "call_find_first_not_of mem h pos (Needle_c_string s) = if_it_returns (returns Ret_size) (find_first_not_of_cstr mem h s pos)"

primrec call_find_last_not_of :: "('c::{linorder,zero}) memory \<Rightarrow> basic_string_view \<Rightarrow> size_type \<Rightarrow> 'c needle \<Rightarrow> 'c outcome" where
  "call_find_last_not_of mem h pos (Needle_view s) = returns Ret_size (find_last_not_of mem h s pos)"
| "call_find_last_not_of mem h pos (Needle_char c pc) = returns Ret_size (find_last_not_of_char mem h c pos pc)"
| "call_find_last_not_of mem h pos (Needle_pointer s n) = returns Ret_size (find_last_not_of_ptr mem h s pos n)"
| "call_find_last_not_of mem h pos (Needle_c_string s) = if_it_returns (returns Ret_size) (find_last_not_of_cstr mem h s pos)"

primrec call_search :: "('c::{linorder,zero}) memory \<Rightarrow> basic_string_view \<Rightarrow> 'c needle \<Rightarrow> size_type \<Rightarrow> search \<Rightarrow> 'c outcome" where
  "call_search mem h needle pos Find = call_find mem h pos needle"
| "call_search mem h needle pos Rfind = call_rfind mem h pos needle"
| "call_search mem h needle pos Find_first_of = call_find_first_of mem h pos needle"
| "call_search mem h needle pos Find_last_of = call_find_last_of mem h pos needle"
| "call_search mem h needle pos Find_first_not_of = call_find_first_not_of mem h pos needle"
| "call_search mem h needle pos Find_last_not_of = call_find_last_not_of mem h pos needle"

text \<open>The six comparison operators; the view of the call is the left operand.\<close>

datatype relation = Equal | Not_equal | Less | Greater | Less_equal | Greater_equal

primrec call_relation :: "('c::linorder) memory \<Rightarrow> basic_string_view \<Rightarrow> basic_string_view \<Rightarrow> relation \<Rightarrow> 'c outcome" where
  "call_relation mem a b Equal = returns Ret_bool (operator_eq mem a b)"
| "call_relation mem a b Not_equal = returns Ret_bool (operator_ne mem a b)"
| "call_relation mem a b Less = returns Ret_bool (operator_lt mem a b)"
| "call_relation mem a b Greater = returns Ret_bool (operator_gt mem a b)"
| "call_relation mem a b Less_equal = returns Ret_bool (operator_le mem a b)"
| "call_relation mem a b Greater_equal = returns Ret_bool (operator_ge mem a b)"

text \<open>Every public operation, and the call of one on the view \<open>h\<close> in the memory \<open>mem\<close>.\<close>

datatype 'c operation =
    Construct construct
  | Iterator iterator
  | Access access
  | Capacity capacity
  | Modifier modifier
  | Copy const_pointer size_type size_type
  | Substr size_type size_type
  | Compare comparison
  | Starts_with "'c affix"
  | Ends_with "'c affix"
  | Search search "'c needle" size_type
  | Relation relation basic_string_view

primrec call :: "('c::{linorder,zero}) memory \<Rightarrow> basic_string_view \<Rightarrow> 'c operation \<Rightarrow> 'c outcome" where
  "call mem h (Construct c) = call_construct mem h c"
| "call mem h (Iterator i) = call_iterator h i"
| "call mem h (Access a) = call_access mem h a"
| "call mem h (Capacity c) = call_capacity h c"
| "call mem h (Modifier m) = call_modifier h m"
| "call mem h (Copy dest count pos) =
     returns_or_throws (\<lambda>(mem', rcount). Ret_copied mem' rcount) (copy mem h dest count pos)"
| "call mem h (Substr pos count) = returns_or_throws Ret_view (substr h pos count)"
| "call mem h (Compare c) = call_compare mem h c"
| "call mem h (Starts_with a) = call_starts_with mem h a"
| "call mem h (Ends_with a) = call_ends_with mem h a"
| "call mem h (Search s needle pos) = call_search mem h needle pos s"
| "call mem h (Relation r b) = call_relation mem h b r"

section \<open>Notions of the specification\<close>

text \<open>
  The addresses of the range \<^verbatim>\<open>[p, p + n)\<close> in order, and the range of a view,
  \<^verbatim>\<open>[m_data, m_data + m_size)\<close>.
\<close>

definition range_of :: "const_pointer \<Rightarrow> size_type \<Rightarrow> const_pointer list" where
  "range_of p n = map (\<lambda>i. p + of_nat i) [0..<unat n]"

definition view_range :: "basic_string_view \<Rightarrow> const_pointer list" where
  "view_range h = range_of (m_data h) (m_size h)"

text \<open>
  The characters of the range \<^verbatim>\<open>[p, p + n)\<close>, and the characters a view shows.
\<close>

definition chars_of :: "'c memory \<Rightarrow> const_pointer \<Rightarrow> size_type \<Rightarrow> 'c list" where
  "chars_of mem p n = map mem (range_of p n)"

definition contents :: "'c memory \<Rightarrow> basic_string_view \<Rightarrow> 'c list" where
  "contents mem h = chars_of mem (m_data h) (m_size h)"

text \<open>
  The slice of \<open>h\<close> of the length of \<open>v\<close> that starts at index \<open>i\<close> lies within \<open>h\<close> and
  equals \<open>v\<close> character by character.
\<close>

definition slice_at :: "'c memory \<Rightarrow> basic_string_view \<Rightarrow> basic_string_view \<Rightarrow> size_type \<Rightarrow> bool" where
  "slice_at mem h v i \<longleftrightarrow>
     unat i + unat (m_size v) \<le> unat (m_size h) \<and>
     chars_of mem (m_data h + i) (m_size v) = contents mem v"

text \<open>
  The order of the specification on character sequences, "lexicographic with length
  tie-break": the first position where the characters differ decides; when there is none,
  the shorter sequence is less, and sequences of one length are equal. The result is the sign:
  \<open>- 1\<close>, 0 or 1.
\<close>

fun lex_order :: "('c::linorder) list \<Rightarrow> 'c list \<Rightarrow> int" where
  "lex_order [] [] = 0"
| "lex_order [] (y # ys) = - 1"
| "lex_order (x # xs) [] = 1"
| "lex_order (x # xs) (y # ys) =
     (if x < y then - 1 else if y < x then 1 else lex_order xs ys)"

subsection \<open>A memory to run the operations on\<close>

text \<open>
  The memory that holds the characters \<open>xs\<close> from address 1 on, and the terminator everywhere
  else (address 0 is the null pointer).
\<close>

definition mem_of :: "('c::zero) list \<Rightarrow> 'c memory" where
  "mem_of xs = (\<lambda>a. if a \<noteq> 0 \<and> unat a \<le> length xs then xs ! (unat a - 1) else 0)"

text \<open>
  \<^verbatim>\<open>"hello world"\<close> at the addresses 1 to 11 with its terminator at 12, and
  \<^verbatim>\<open>"world"\<close> at 13 to 17 with its terminator at 18; characters are bytes.
\<close>

definition hello_world :: "8 word memory" where
  "hello_world = mem_of
     [104, 101, 108, 108, 111, 32, 119, 111, 114, 108, 100, 0, 119, 111, 114, 108, 100, 0]"

definition hello :: basic_string_view where
  "hello = \<lparr>m_data = 1, m_size = 5\<rparr>"

definition hello_world_sv :: basic_string_view where
  "hello_world_sv = \<lparr>m_data = 1, m_size = 11\<rparr>"

definition world :: basic_string_view where
  "world = \<lparr>m_data = 13, m_size = 5\<rparr>"

text \<open>The letter \<^verbatim>\<open>o\<close> of \<^verbatim>\<open>"hello"\<close>, a needle of one character.\<close>

definition letter_o :: basic_string_view where
  "letter_o = \<lparr>m_data = 5, m_size = 1\<rparr>"

declare find_loop.simps [code]
declare Traits_length_loop.simps [code]

section \<open>Properties\<close>

subsection \<open>Ranges and the character comparison\<close>

lemma sv_copy_same [simp]: "sv_copy v = v"
  by (simp add: sv_copy_def copy_ctor_def)

lemma unat_npos: "unat npos = 2 ^ 64 - 1"
  by (simp add: npos_def unsigned_minus_1_eq_mask mask_eq_exp_minus_1)

lemma unat_size_bound: "unat (x :: size_type) < 2 ^ 64"
  using unsigned_less [of x] by simp

lemma unat_size_add:
  "unat x + unat y < 2 ^ 64 \<Longrightarrow> unat (x + y :: size_type) = unat x + unat y"
  using unat_add_lem [of x y] by simp

lemma unat_size_of_nat: "n < 2 ^ 64 \<Longrightarrow> unat (of_nat n :: size_type) = n"
  by (simp add: unat_of_nat)

lemma below_npos: "unat (x :: size_type) < 2 ^ 64 - 1 \<Longrightarrow> x \<noteq> npos"
  using unat_npos by auto

lemma length_range_of [simp]: "length (range_of p n) = unat n"
  by (simp add: range_of_def)

lemma length_chars_of [simp]: "length (chars_of mem p n) = unat n"
  by (simp add: chars_of_def)

lemma nth_chars_of: "i < unat n \<Longrightarrow> chars_of mem p n ! i = mem (p + of_nat i)"
  by (simp add: chars_of_def range_of_def)

lemma Traits_compare_zero_iff:
  "Traits_compare mem p q n = 0 \<longleftrightarrow> (\<forall>i<n. mem (p + of_nat i) = mem (q + of_nat i))"
proof (induction n arbitrary: p q)
  case 0
  show ?case by simp
next
  case (Suc n)
  have split: "(\<forall>i<Suc n. mem (p + of_nat i) = mem (q + of_nat i)) \<longleftrightarrow>
      mem p = mem q \<and> (\<forall>i<n. mem (p + 1 + of_nat i) = mem (q + 1 + of_nat i))"
    by (auto simp: less_Suc_eq_0_disj add.assoc)
  show ?case
    unfolding split using Suc.IH [of "p + 1" "q + 1"] by auto
qed

lemma Traits_compare_chars:
  "Traits_compare mem p q (unat n) = 0 \<longleftrightarrow> chars_of mem p n = chars_of mem q n"
proof -
  have "chars_of mem p n = chars_of mem q n \<longleftrightarrow>
      (\<forall>i<unat n. chars_of mem p n ! i = chars_of mem q n ! i)"
    unfolding list_eq_iff_nth_eq [of "chars_of mem p n"] by simp
  also have "\<dots> \<longleftrightarrow> (\<forall>i<unat n. mem (p + of_nat i) = mem (q + of_nat i))"
    using nth_chars_of [of _ n mem] by auto
  finally show ?thesis
    by (simp add: Traits_compare_zero_iff)
qed

lemma Traits_compare_flip: "Traits_compare mem q p n = - Traits_compare mem p q n"
proof (induction n arbitrary: p q)
  case 0
  show ?case by simp
next
  case (Suc n)
  show ?case
    using Suc.IH [of "q + 1" "p + 1"] by (auto simp del: Traits_compare.simps(2) simp add: Traits_compare.simps(2) [of mem q p] Traits_compare.simps(2) [of mem p q])
qed

lemma Traits_compare_same [simp]: "Traits_compare mem p p n = 0"
  by (simp add: Traits_compare_zero_iff)

lemma chars_of_eq_size: "chars_of mem p n = chars_of mem q k \<Longrightarrow> n = k"
proof -
  assume "chars_of mem p n = chars_of mem q k"
  then have "length (chars_of mem p n) = length (chars_of mem q k)" by simp
  then show "n = k" by (simp add: word_unat_eq_iff)
qed

lemma compare_flip: "compare mem b a = - compare mem a b"
  by (auto simp: compare_def Let_def min.commute Traits_compare_flip [of mem "m_data b" "m_data a"])

lemma compare_zero_iff:
  "compare mem a b = 0 \<longleftrightarrow> m_size a = m_size b \<and> contents mem a = contents mem b"
  by (auto simp: compare_def Let_def contents_def Traits_compare_chars dest: chars_of_eq_size)

subsection \<open>compare is the lexicographic order with the length as tie-break\<close>

lemma upt_shift: "[0..<Suc k] = 0 # map Suc [0..<k]"
  by (simp add: upt_conv_Cons map_Suc_upt del: upt_Suc)

lemma addresses_Suc:
  "map (\<lambda>i. p + of_nat i) [0..<Suc k] = (p :: const_pointer) # map (\<lambda>i. p + 1 + of_nat i) [0..<k]"
  unfolding upt_shift by (simp add: comp_def add.assoc)

lemma Traits_compare_lex:
  "Traits_compare mem p q k =
     lex_order (map mem (map (\<lambda>i. p + of_nat i) [0..<k])) (map mem (map (\<lambda>i. q + of_nat i) [0..<k]))"
proof (induction k arbitrary: p q)
  case 0
  show ?case by simp
next
  case (Suc k)
  show ?case
    unfolding addresses_Suc using Suc.IH [of "p + 1" "q + 1"] by simp
qed

lemma lex_order_longer_right:
  "length xs = length ys \<Longrightarrow> zs \<noteq> [] \<Longrightarrow>
     lex_order xs (ys @ zs) = (if lex_order xs ys \<noteq> 0 then lex_order xs ys else - 1)"
proof (induction xs ys rule: list_induct2)
  case Nil
  then show ?case by (cases zs) simp_all
next
  case (Cons x xs y ys)
  then show ?case by simp
qed

lemma lex_order_longer_left:
  "length xs = length ys \<Longrightarrow> zs \<noteq> [] \<Longrightarrow>
     lex_order (xs @ zs) ys = (if lex_order xs ys \<noteq> 0 then lex_order xs ys else 1)"
proof (induction xs ys rule: list_induct2)
  case Nil
  then show ?case by (cases zs) simp_all
next
  case (Cons x xs y ys)
  then show ?case by simp
qed

lemma addresses_append:
  "k \<le> m \<Longrightarrow> map f [0..<m] = map f [0..<k] @ map f [k..<m]"
  by (metis map_append upt_add_eq_append le_add_diff_inverse zero_le)

lemma compare_lex: "compare mem a b = lex_order (contents mem a) (contents mem b)"
proof -
  let ?n = "unat (m_size a)" and ?m = "unat (m_size b)"
  let ?A = "\<lambda>k. map mem (map (\<lambda>i. m_data a + of_nat i) [0..<k])"
  let ?B = "\<lambda>k. map mem (map (\<lambda>i. m_data b + of_nat i) [0..<k])"
  have contents: "contents mem a = ?A ?n" "contents mem b = ?B ?m"
    by (simp_all add: contents_def chars_of_def range_of_def)
  have rlen: "unat (min (m_size a) (m_size b)) = min ?n ?m"
    by (simp add: min_def word_le_nat_alt)
  consider (eq) "?n = ?m" | (less) "?n < ?m" | (greater) "?m < ?n"
    by linarith
  then show ?thesis
  proof cases
    case eq
    then have "m_size a = m_size b"
      by (simp add: word_unat_eq_iff)
    with eq show ?thesis
      unfolding contents by (simp add: compare_def Let_def Traits_compare_lex)
  next
    case less
    then have sizes: "m_size a < m_size b" "m_size a \<noteq> m_size b"
      by (auto simp: word_less_nat_alt)
    let ?rest = "map mem (map (\<lambda>i. m_data b + of_nat i) [?n..<?m])"
    from less have split: "?B ?m = ?B ?n @ ?rest"
      by (simp add: addresses_append [of ?n ?m] del: map_map)
    from less have rest: "?rest \<noteq> []"
      by simp
    have "length (?A ?n) = length (?B ?n)"
      by simp
    from lex_order_longer_right [OF this rest]
    have "lex_order (?A ?n) (?B ?m) =
        (if lex_order (?A ?n) (?B ?n) \<noteq> 0 then lex_order (?A ?n) (?B ?n) else - 1)"
      unfolding split .
    with less sizes show ?thesis
      unfolding contents by (simp add: compare_def Let_def rlen Traits_compare_lex)
  next
    case greater
    then have sizes: "\<not> m_size a < m_size b" "m_size a \<noteq> m_size b"
      by (auto simp: word_less_nat_alt)
    let ?rest = "map mem (map (\<lambda>i. m_data a + of_nat i) [?m..<?n])"
    from greater have split: "?A ?n = ?A ?m @ ?rest"
      by (simp add: addresses_append [of ?m ?n] del: map_map)
    from greater have rest: "?rest \<noteq> []"
      by simp
    have "length (?A ?m) = length (?B ?m)"
      by simp
    from lex_order_longer_left [OF this rest]
    have "lex_order (?A ?n) (?B ?m) =
        (if lex_order (?A ?m) (?B ?m) \<noteq> 0 then lex_order (?A ?m) (?B ?m) else 1)"
      unfolding split .
    with greater sizes show ?thesis
      unfolding contents by (simp add: compare_def Let_def rlen Traits_compare_lex min_def)
  qed
qed

lemma sgn_lex_order: "sgn (lex_order xs ys) = lex_order xs ys"
  by (induction xs ys rule: lex_order.induct) simp_all

text \<open>
  Claim C2. For all views \<open>a\<close> and \<open>b\<close>: the sign of \<open>a.compare(b)\<close> is the order of the
  specification on the characters of the two views; the sign of \<open>a.compare(b)\<close> is the opposite of
  the sign of \<open>b.compare(a)\<close>; \<open>a.compare(b)\<close> is 0 exactly when the two views have the
  same length and the same characters, which is what \<open>a == b\<close> returns; and when the
  comparison of the common prefix of \<open>min(a.size(), b.size())\<close> characters is 0 and \<open>a\<close> is
  the shorter view, \<open>a\<close> compares less than \<open>b\<close> (and \<open>b\<close> greater than \<open>a\<close>).
  The statements on \<open>compare\<close> are on the code alone; those on \<^verbatim>\<open>==\<close> and \<^verbatim>\<open><\<close>
  also rest on \<open>sv_copy\<close>, the copy of the right operand modelled from the spec.
\<close>

theorem compare_order:
  "sgn (compare mem a b) = lex_order (contents mem a) (contents mem b) \<and>
   sgn (compare mem a b) = - sgn (compare mem b a) \<and>
   (compare mem a b = 0 \<longleftrightarrow> m_size a = m_size b \<and> contents mem a = contents mem b) \<and>
   (operator_eq mem a b \<longleftrightarrow> compare mem a b = 0) \<and>
   (Traits_compare mem (m_data a) (m_data b) (unat (min (m_size a) (m_size b))) = 0 \<and> m_size a < m_size b
      \<longrightarrow> compare mem a b < 0 \<and> operator_lt mem a b \<and> 0 < compare mem b a)"
proof -
  have 0: "sgn (compare mem a b) = lex_order (contents mem a) (contents mem b)"
    by (simp add: compare_lex sgn_lex_order)
  have 1: "sgn (compare mem a b) = - sgn (compare mem b a)"
    by (simp add: compare_flip [of mem b a])
  have 2: "compare mem a b = 0 \<longleftrightarrow> m_size a = m_size b \<and> contents mem a = contents mem b"
    by (rule compare_zero_iff)
  have 3: "operator_eq mem a b \<longleftrightarrow> compare mem a b = 0"
    by (simp add: operator_eq_def)
  have 4: "compare mem a b < 0 \<and> operator_lt mem a b \<and> 0 < compare mem b a"
    if "Traits_compare mem (m_data a) (m_data b) (unat (min (m_size a) (m_size b))) = 0" "m_size a < m_size b"
  proof -
    from that have "compare mem a b = - 1"
      by (simp add: compare_def Let_def)
    then show ?thesis
      by (simp add: operator_lt_def compare_flip [of mem b a])
  qed
  from 0 1 2 3 4 show ?thesis by blast
qed

text \<open>
  \<^verbatim>\<open>"hello"\<close> against \<^verbatim>\<open>"hello world"\<close>: the common prefix is equal and the shorter
  view is less.
\<close>

theorem compare_order_witness:
  "Traits_compare hello_world (m_data hello) (m_data hello_world_sv)
      (unat (min (m_size hello) (m_size hello_world_sv))) = 0 \<and>
   m_size hello < m_size hello_world_sv \<and>
   compare hello_world hello hello_world_sv < 0 \<and>
   operator_lt hello_world hello hello_world_sv \<and>
   0 < compare hello_world hello_world_sv hello"
proof -
  have prefix: "Traits_compare hello_world (m_data hello) (m_data hello_world_sv)
      (unat (min (m_size hello) (m_size hello_world_sv))) = 0"
    by (simp add: hello_def hello_world_sv_def)
  have shorter: "m_size hello < m_size hello_world_sv"
    by (simp add: hello_def hello_world_sv_def)
  from compare_order [of hello_world hello hello_world_sv] prefix shorter
  show ?thesis by blast
qed

subsection \<open>substr\<close>

lemma substr_ok:
  "pos \<le> m_size h \<Longrightarrow> substr h pos count =
     Inr (if min count (m_size h - pos) = 0 then sv_default
          else sv_ptr_count (m_data h + pos) (min count (m_size h - pos)))"
  by (simp add: substr_def Let_def)

text \<open>
  Claim C3. For every view and every \<open>pos\<close> and \<open>count\<close>: \<open>substr(pos, count)\<close> fails, with
  the out-of-range exception, exactly when \<open>pos > size\<close>; when \<open>pos \<le> size\<close> it returns a view
  whose size is \<open>rcount = min(count, size - pos)\<close> and whose range of addresses is
  \<open>[data + pos, data + pos + rcount)\<close>. When \<open>rcount\<close> is not 0, the data pointer of the result
  is \<open>data + pos\<close>; when it is 0 the range is empty (and the data pointer is null, claim C4).
\<close>

theorem substr_size_and_range:
  "(substr h pos count = Inl Out_of_range \<longleftrightarrow> m_size h < pos) \<and>
   (pos \<le> m_size h \<longrightarrow>
      (\<exists>r. substr h pos count = Inr r \<and>
           m_size r = min count (m_size h - pos) \<and>
           view_range r = range_of (m_data h + pos) (min count (m_size h - pos)) \<and>
           (min count (m_size h - pos) \<noteq> 0 \<longrightarrow> m_data r = m_data h + pos)))"
  by (auto simp: substr_def sv_default_def sv_ptr_count_def view_range_def range_of_def Let_def)

text \<open>
  \<^verbatim>\<open>View("hello").substr(1, 3)\<close> is the view of \<^verbatim>\<open>"ell"\<close>, at the addresses 2 to 4.
\<close>

theorem substr_size_and_range_witness:
  "(1 :: size_type) \<le> m_size hello \<and>
   min 3 (m_size hello - 1) \<noteq> (0 :: size_type) \<and>
   (\<exists>r. substr hello 1 3 = Inr r \<and> m_size r = 3 \<and> m_data r = 2 \<and>
        view_range r = [2, 3, 4] \<and> contents hello_world r = [101, 108, 108])"
proof -
  have pos: "(1 :: size_type) \<le> m_size hello"
    by (simp add: hello_def)
  have rcount: "min 3 (m_size hello - 1) = (3 :: size_type)"
    by (simp add: hello_def)
  have addresses: "range_of (m_data hello + 1) 3 = [2, 3, 4]"
    by code_simp
  have characters: "chars_of hello_world 2 3 = [101, 108, 108]"
    by code_simp
  from substr_size_and_range [of hello 1 3] pos
  obtain r where r: "substr hello 1 3 = Inr r"
    and size: "m_size r = min 3 (m_size hello - 1)"
    and range: "view_range r = range_of (m_data hello + 1) (min 3 (m_size hello - 1))"
    and data: "min 3 (m_size hello - 1) \<noteq> 0 \<longrightarrow> m_data r = m_data hello + 1"
    by blast
  from data rcount have "m_data r = 2"
    by (simp add: hello_def)
  with r size range rcount addresses characters
  have "substr hello 1 3 = Inr r \<and> m_size r = 3 \<and> m_data r = 2 \<and>
        view_range r = [2, 3, 4] \<and> contents hello_world r = [101, 108, 108]"
    by (simp add: contents_def)
  then have "\<exists>r. substr hello 1 3 = Inr r \<and> m_size r = 3 \<and> m_data r = 2 \<and>
        view_range r = [2, 3, 4] \<and> contents hello_world r = [101, 108, 108]"
    by (rule exI)
  with pos rcount show ?thesis
    by simp
qed

text \<open>
  Claim C4. For every view and every \<open>pos \<le> size\<close> and \<open>count\<close> with
  \<open>min(count, size - pos) = 0\<close>, \<open>substr(pos, count)\<close> returns the default-constructed view:
  its data pointer is null, its size is 0, and \<open>==\<close> holds between it and the default view
  (\<^verbatim>\<open>operator==\<close> with \<open>sv_copy\<close>, the copy of its right operand modelled from the spec;
  the other statements are on \<open>substr\<close> alone).
\<close>

theorem substr_empty_is_default:
  assumes "pos \<le> m_size h" and "min count (m_size h - pos) = 0"
  shows "\<exists>r. substr h pos count = Inr r \<and> r = sv_default \<and> m_data r = nullptr \<and> m_size r = 0
    \<and> operator_eq mem r sv_default"
  using assms by (simp add: substr_ok sv_default_def operator_eq_def compare_def)

text \<open>A slice of \<^verbatim>\<open>"hello"\<close> of no character, from its middle and from its end.\<close>

theorem substr_empty_is_default_witness:
  "(2 :: size_type) \<le> m_size hello \<and> min 0 (m_size hello - 2) = (0 :: size_type) \<and>
   substr hello 2 0 = Inr \<lparr>m_data = 0, m_size = 0\<rparr> \<and>
   (5 :: size_type) \<le> m_size hello \<and> min npos (m_size hello - 5) = (0 :: size_type) \<and>
   substr hello 5 npos = Inr \<lparr>m_data = 0, m_size = 0\<rparr>"
proof -
  have middle: "(2 :: size_type) \<le> m_size hello" "min 0 (m_size hello - 2) = (0 :: size_type)"
    by (simp_all add: hello_def)
  have last: "(5 :: size_type) \<le> m_size hello" "min npos (m_size hello - 5) = (0 :: size_type)"
    by (simp_all add: hello_def)
  from substr_empty_is_default [OF middle, of hello_world]
    substr_empty_is_default [OF last, of hello_world] middle last
  show ?thesis
    by (simp add: sv_default_def nullptr_def)
qed

subsection \<open>find with an empty needle\<close>

text \<open>
  Claim C10. For every haystack \<open>h\<close>, every empty needle \<open>v\<close> and every \<open>pos\<close>:
  \<open>h.find(v, pos)\<close> returns \<open>pos\<close> when \<open>pos \<le> h.size()\<close> (also at \<open>pos = h.size()\<close>), and
  \<open>npos\<close> when \<open>pos > h.size()\<close>.
\<close>

theorem find_empty_needle:
  assumes "empty_sv v"
  shows "find_sv mem h v pos = Some (if pos \<le> m_size h then pos else npos)"
  using assms
  by (auto simp: find_sv_def empty_sv_def find_loop.simps [of mem h v pos])

text \<open>
  The empty needle in \<^verbatim>\<open>"hello world"\<close>: found at the end, index 11, and not from 12.
\<close>

theorem find_empty_needle_witness:
  "empty_sv sv_default \<and>
   find_sv hello_world hello_world_sv sv_default 11 = Some 11 \<and>
   find_sv hello_world hello_world_sv sv_default 12 = Some npos"
proof -
  have needle: "empty_sv sv_default"
    by (simp add: empty_sv_def sv_default_def)
  from find_empty_needle [OF needle, of hello_world hello_world_sv 11]
    find_empty_needle [OF needle, of hello_world hello_world_sv 12] needle
  show ?thesis
    by (simp add: hello_world_sv_def)
qed

subsection \<open>starts_with and ends_with\<close>

lemma contents_sv_default [simp]: "contents mem sv_default = []"
  by (simp add: contents_def chars_of_def range_of_def sv_default_def)

lemma m_size_sv_default [simp]: "m_size sv_default = 0"
  by (simp add: sv_default_def)

lemma min_npos [simp]: "min npos n = n"
  by (simp add: npos_def min_absorb2)

lemma chars_of_zero [simp]: "chars_of mem p 0 = []"
  by (simp add: chars_of_def range_of_def)

lemma contents_sv_ptr_count [simp]: "contents mem (sv_ptr_count p n) = chars_of mem p n"
  by (simp add: contents_def sv_ptr_count_def)

lemma operator_eq_iff:
  "operator_eq mem a b \<longleftrightarrow> m_size a = m_size b \<and> contents mem a = contents mem b"
  by (simp add: operator_eq_def compare_zero_iff)

lemma starts_with_iff:
  "starts_with mem s v =
     Inr (m_size v \<le> m_size s \<and> chars_of mem (m_data s) (m_size v) = contents mem v)"
proof (cases "m_size v \<le> m_size s")
  case False
  then show ?thesis by (simp add: starts_with_def)
next
  case True
  show ?thesis
  proof (cases "m_size v = 0")
    case True
    then have "contents mem v = []"
      by (simp add: contents_def)
    with True show ?thesis
      by (simp add: starts_with_def substr_ok operator_eq_iff)
  next
    case False
    with True show ?thesis
      by (simp add: starts_with_def substr_ok operator_eq_iff sv_ptr_count_def contents_def)
  qed
qed

lemma ends_with_iff:
  "ends_with mem s v =
     Inr (m_size v \<le> m_size s \<and>
          chars_of mem (m_data s + (m_size s - m_size v)) (m_size v) = contents mem v)"
proof (cases "m_size v \<le> m_size s")
  case False
  then show ?thesis by (simp add: ends_with_def)
next
  case True
  then have pos: "m_size s - m_size v \<le> m_size s"
    by unat_arith
  have rcount: "min npos (m_size s - (m_size s - m_size v)) = m_size v"
    by simp
  show ?thesis
  proof (cases "m_size v = 0")
    case True
    then have "contents mem v = []"
      by (simp add: contents_def)
    with True show ?thesis
      by (simp add: ends_with_def substr_ok operator_eq_iff)
  next
    case False
    with True pos rcount show ?thesis
      by (simp add: ends_with_def substr_ok operator_eq_iff sv_ptr_count_def contents_def)
  qed
qed

text \<open>
  Claim C6. For every view \<open>s\<close> and every \<open>k \<le> s.size()\<close>, \<open>s.starts_with(s.substr(0, k))\<close>
  is true and \<open>s.ends_with(s.substr(s.size() - k))\<close> is true. For every view \<open>v\<close>,
  \<open>s.starts_with(v)\<close> is true exactly when \<open>s.size() \<ge> v.size()\<close> and the first \<open>v.size()\<close>
  characters of \<open>s\<close> are the characters of \<open>v\<close>; \<open>s.ends_with(v)\<close> is true exactly when
  \<open>s.size() \<ge> v.size()\<close> and the last \<open>v.size()\<close> characters of \<open>s\<close> are those of \<open>v\<close>. Neither
  call throws.

  Both functions, and the \<^verbatim>\<open>operator==\<close> they call, copy their parameter on the way to
  \<^verbatim>\<open>compare\<close>. That copy is \<open>sv_copy\<close>, modelled from the spec, since the header has
  no code for it: the theorem is about the bodies of lines 439 to 441, 473 to 475 and 730 to
  732 with the copy the spec describes, and as the header stands a call of either function
  gives no result.
\<close>

theorem starts_ends_with_substr:
  "(k \<le> m_size s \<longrightarrow> (\<exists>p. substr s 0 k = Inr p \<and> starts_with mem s p = Inr True)) \<and>
   (k \<le> m_size s \<longrightarrow> (\<exists>q. substr s (m_size s - k) npos = Inr q \<and> ends_with mem s q = Inr True)) \<and>
   starts_with mem s v =
     Inr (m_size s \<ge> m_size v \<and> chars_of mem (m_data s) (m_size v) = contents mem v) \<and>
   ends_with mem s v =
     Inr (m_size s \<ge> m_size v \<and>
          chars_of mem (m_data s + (m_size s - m_size v)) (m_size v) = contents mem v)"
proof -
  have prefix: "\<exists>p. substr s 0 k = Inr p \<and> starts_with mem s p = Inr True" if "k \<le> m_size s"
  proof (cases "k = 0")
    case True
    then show ?thesis
      by (simp add: substr_ok starts_with_iff)
  next
    case False
    with that show ?thesis
      by (simp add: substr_ok starts_with_iff sv_ptr_count_def contents_def)
  qed
  have suffix: "\<exists>q. substr s (m_size s - k) npos = Inr q \<and> ends_with mem s q = Inr True"
    if "k \<le> m_size s"
  proof -
    from that have pos: "m_size s - k \<le> m_size s"
      by unat_arith
    have rcount: "min npos (m_size s - (m_size s - k)) = k"
      by simp
    show ?thesis
    proof (cases "k = 0")
      case True
      with pos rcount show ?thesis
        by (simp add: substr_ok ends_with_iff)
    next
      case False
      with pos rcount that show ?thesis
        by (simp add: substr_ok ends_with_iff sv_ptr_count_def contents_def)
    qed
  qed
  from prefix suffix show ?thesis
    by (simp add: starts_with_iff ends_with_iff)
qed

theorem starts_ends_with_substr_witness:
  "(2 :: size_type) \<le> m_size hello \<and>
   (\<exists>p. substr hello 0 2 = Inr p \<and> starts_with hello_world hello p = Inr True) \<and>
   (\<exists>q. substr hello (m_size hello - 2) npos = Inr q \<and> ends_with hello_world hello q = Inr True)"
proof -
  have k: "(2 :: size_type) \<le> m_size hello"
    by (simp add: hello_def)
  from starts_ends_with_substr [of 2 hello hello_world hello] k
  show ?thesis by blast
qed

subsection \<open>The out-of-range exception\<close>

lemma returns_throws [simp]: "returns ret x = Some (Inl e) \<longleftrightarrow> False"
  by (simp add: returns_def)

lemma returns_or_throws_throws [simp]: "returns_or_throws ret x = Some (Inl e) \<longleftrightarrow> x = Inl e"
  by (cases x) (simp_all add: returns_or_throws_def)

lemma if_it_returns_throws [simp]:
  "if_it_returns k x = Some (Inl e) \<longleftrightarrow> (\<exists>y. x = Some y \<and> k y = Some (Inl e))"
  by (cases x) (simp_all add: if_it_returns_def)

lemma at_throws: "at mem h pos = Inl e \<longleftrightarrow> e = Out_of_range \<and> m_size h \<le> pos"
  by (auto simp: at_def)

lemma substr_throws: "substr h pos count = Inl e \<longleftrightarrow> e = Out_of_range \<and> m_size h < pos"
  by (auto simp: substr_def Let_def)

lemma copy_throws: "copy mem h dest count pos = Inl e \<longleftrightarrow> e = Out_of_range \<and> m_size h < pos"
  by (auto simp: copy_def Let_def)

lemma compare_sub_throws:
  "compare_sub mem h pos1 count1 v = Inl e \<longleftrightarrow> e = Out_of_range \<and> m_size h < pos1"
  using substr_throws [of h pos1 count1 e]
  by (cases "substr h pos1 count1") (simp_all add: compare_sub_def)

lemma compare_sub_sub_throws:
  "compare_sub_sub mem h pos1 count1 v pos2 count2 = Inl e \<longleftrightarrow>
     e = Out_of_range \<and> (m_size h < pos1 \<or> m_size v < pos2)"
proof (cases "substr h pos1 count1")
  case (Inl e')
  then show ?thesis
    using substr_throws [of h pos1 count1 e'] by (auto simp: compare_sub_sub_def)
next
  case (Inr s)
  then have inside: "\<not> m_size h < pos1"
    using substr_throws [of h pos1 count1 Out_of_range] by auto
  show ?thesis
  proof (cases "substr v pos2 count2")
    case (Inl e')
    with Inr inside show ?thesis
      using substr_throws [of v pos2 count2 e'] by (auto simp: compare_sub_sub_def)
  next
    case inner: (Inr t)
    then have "\<not> m_size v < pos2"
      using substr_throws [of v pos2 count2 Out_of_range] by auto
    with Inr inner inside show ?thesis
      by (simp add: compare_sub_sub_def)
  qed
qed

lemma compare_sub_ptr_throws:
  "compare_sub_ptr mem h pos1 count1 s count2 = Inl e \<longleftrightarrow> e = Out_of_range \<and> m_size h < pos1"
  using substr_throws [of h pos1 count1 e]
  by (cases "substr h pos1 count1") (simp_all add: compare_sub_ptr_def)

lemma compare_sub_cstr_throws:
  "compare_sub_cstr mem h pos1 count1 s = Some (Inl e) \<longleftrightarrow> e = Out_of_range \<and> m_size h < pos1"
  using substr_throws [of h pos1 count1 e]
  by (cases "substr h pos1 count1") (simp_all add: compare_sub_cstr_def split: option.splits)

lemma starts_with_throws: "starts_with mem h sv = Inl e \<longleftrightarrow> False"
  by (simp add: starts_with_iff)

lemma ends_with_throws: "ends_with mem h sv = Inl e \<longleftrightarrow> False"
  by (simp add: ends_with_iff)

lemma call_construct_throws: "call_construct mem h c = Some (Inl e) \<longleftrightarrow> False"
  by (cases c) simp_all

lemma call_iterator_throws: "call_iterator h i = Some (Inl e) \<longleftrightarrow> False"
  by (cases i) simp_all

lemma call_capacity_throws: "call_capacity h c = Some (Inl e) \<longleftrightarrow> False"
  by (cases c) simp_all

lemma call_modifier_throws: "call_modifier h m = Some (Inl e) \<longleftrightarrow> False"
  by (cases m) simp_all

lemma call_starts_with_throws: "call_starts_with mem h a = Some (Inl e) \<longleftrightarrow> False"
  by (cases a) (simp_all add: starts_with_throws starts_with_cstr_def split: option.splits)

lemma call_ends_with_throws: "call_ends_with mem h a = Some (Inl e) \<longleftrightarrow> False"
  by (cases a) (simp_all add: ends_with_throws ends_with_cstr_def split: option.splits)

lemma call_search_throws: "call_search mem h needle pos s = Some (Inl e) \<longleftrightarrow> False"
  by (cases s; cases needle) simp_all

lemma call_relation_throws: "call_relation mem a b r = Some (Inl e) \<longleftrightarrow> False"
  by (cases r) simp_all

text \<open>
  Claim C7, as the code has it. Of every public operation, on every view, with every
  argument and in every memory: a call throws no exception but out-of-range, and the calls
  that throw it are those of \<open>at\<close>, \<open>substr\<close>, \<open>copy\<close> and the overloads of \<open>compare\<close> that
  slice first (no overload of \<open>find\<close> does). \<open>at\<close> throws exactly when \<open>pos \<ge> size\<close>; the
  others throw exactly when a start position exceeds the size of the view it slices. No
  other public operation throws.
\<close>

theorem out_of_range_exactly:
  "call mem h op = Some (Inl e) \<longleftrightarrow>
     e = Out_of_range \<and>
     (case op of
        Access (At pos) \<Rightarrow> m_size h \<le> pos
      | Substr pos count \<Rightarrow> m_size h < pos
      | Copy dest count pos \<Rightarrow> m_size h < pos
      | Compare (Compare_sub pos1 count1 v) \<Rightarrow> m_size h < pos1
      | Compare (Compare_sub_sub pos1 count1 v pos2 count2) \<Rightarrow>
          m_size h < pos1 \<or> m_size v < pos2
      | Compare (Compare_sub_c_string pos1 count1 s) \<Rightarrow> m_size h < pos1
      | Compare (Compare_sub_pointer pos1 count1 s count2) \<Rightarrow> m_size h < pos1
      | _ \<Rightarrow> False)"
proof (cases op)
  case (Access a)
  then show ?thesis
    by (cases a) (simp_all add: at_throws)
next
  case (Compare c)
  then show ?thesis
    by (cases c)
      (simp_all add: compare_sub_throws compare_sub_sub_throws compare_sub_ptr_throws
        compare_sub_cstr_throws)
qed (simp_all add: call_construct_throws call_iterator_throws call_capacity_throws
    call_modifier_throws copy_throws substr_throws call_starts_with_throws
    call_ends_with_throws call_search_throws call_relation_throws)

text \<open>
  Calls on \<^verbatim>\<open>"hello"\<close>: \<open>at(10)\<close>, \<open>at(5)\<close>, \<open>substr(6, 1)\<close>, \<open>copy\<close> from position 6 and
  \<open>compare(6, 1, "world")\<close> throw out-of-range; \<open>at(4)\<close> returns the letter \<^verbatim>\<open>o\<close>,
  \<open>starts_with("world")\<close> returns false and \<open>find("world")\<close> returns \<open>npos\<close>.
\<close>

theorem out_of_range_exactly_witness:
  "call hello_world hello (Access (At 10)) = Some (Inl Out_of_range) \<and>
   call hello_world hello (Access (At 5)) = Some (Inl Out_of_range) \<and>
   call hello_world hello (Substr 6 1) = Some (Inl Out_of_range) \<and>
   call hello_world hello (Copy 100 1 6) = Some (Inl Out_of_range) \<and>
   call hello_world hello (Compare (Compare_sub 6 1 world)) = Some (Inl Out_of_range) \<and>
   call hello_world hello (Access (At 4)) = Some (Inr (Ret_char 111)) \<and>
   call hello_world hello (Starts_with (Affix_view world)) = Some (Inr (Ret_bool False)) \<and>
   call hello_world hello (Search Find (Needle_view world) 0) = Some (Inr (Ret_size npos))"
proof -
  have size: "m_size hello = 5"
    by (simp add: hello_def)
  have thrown: "call hello_world hello (Access (At 10)) = Some (Inl Out_of_range)"
      "call hello_world hello (Access (At 5)) = Some (Inl Out_of_range)"
      "call hello_world hello (Substr 6 1) = Some (Inl Out_of_range)"
      "call hello_world hello (Copy 100 1 6) = Some (Inl Out_of_range)"
      "call hello_world hello (Compare (Compare_sub 6 1 world)) = Some (Inl Out_of_range)"
    unfolding out_of_range_exactly by (simp_all add: size)
  have returned: "call hello_world hello (Access (At 4)) = Some (Inr (Ret_char 111))"
      "call hello_world hello (Starts_with (Affix_view world)) = Some (Inr (Ret_bool False))"
      "call hello_world hello (Search Find (Needle_view world) 0) = Some (Inr (Ret_size npos))"
    by code_simp+
  from thrown returned show ?thesis
    by simp
qed

text \<open>
  Claim C7, as the specification states it, names \<open>at\<close>, \<open>substr\<close> and the ranged
  \<open>compare\<close> and \<open>find\<close> overloads as the only operations that throw, and only when the
  start position exceeds the length. On \<^verbatim>\<open>"hello"\<close>, \<open>copy\<close> from position 6 throws, and
  \<open>at(5)\<close> throws although 5 does not exceed the length 5.
\<close>

theorem out_of_range_counterexample:
  "copy hello_world hello 100 1 6 = Inl Out_of_range \<and>
   at hello_world hello 5 = Inl Out_of_range \<and>
   \<not> m_size hello < 5"
  by (simp add: copy_def at_def hello_def)

subsection \<open>Construction from a null-terminated buffer\<close>

lemma Traits_length_loop_finds:
  assumes "mem (s + n) = 0" and "\<forall>j. i \<le> j \<and> j < n \<longrightarrow> mem (s + j) \<noteq> 0" and "i \<le> n"
  shows "Traits_length_loop mem s i = Some n"
  using assms
proof (induction "unat n - unat i" arbitrary: i)
  case 0
  then have "i = n"
    by unat_arith
  with "0.prems"(1) show ?case
    by (simp add: Traits_length_loop.simps [of mem s n])
next
  case (Suc k)
  then have less: "i < n"
    by unat_arith
  with Suc.prems(2) have nonzero: "mem (s + i) \<noteq> 0"
    by simp
  from less have next_le: "i + 1 \<le> n"
    by (rule inc_le)
  from less have "unat (i + 1) = unat i + 1"
    by unat_arith
  with Suc.hyps(2) have measure: "k = unat n - unat (i + 1)"
    by simp
  have rest: "\<forall>j. i + 1 \<le> j \<and> j < n \<longrightarrow> mem (s + j) \<noteq> 0"
  proof (intro allI impI)
    fix j assume j: "i + 1 \<le> j \<and> j < n"
    with less have "i \<le> j" by unat_arith
    with j Suc.prems(2) show "mem (s + j) \<noteq> 0" by simp
  qed
  from Suc.hyps(1) [OF measure Suc.prems(1) rest next_le] nonzero
  show ?case
    by (simp add: Traits_length_loop.simps [of mem s i])
qed

lemma Traits_length_loop_Some_terminator:
  "Traits_length_loop mem s i = Some n \<Longrightarrow> \<exists>a. mem a = 0"
  by (rule Traits_length_loop.raw_induct [where P = "\<lambda>mem s i n. \<exists>a. mem a = 0"]) (auto split: if_splits)

lemma Traits_length_diverges:
  assumes "\<forall>a. mem a \<noteq> 0"
  shows "Traits_length mem s = None"
proof (cases "Traits_length mem s")
  case None
  then show ?thesis .
next
  case (Some n)
  then have "\<exists>a. mem a = 0"
    unfolding Traits_length_def by (rule Traits_length_loop_Some_terminator)
  with assms show ?thesis by simp
qed

lemma chars_of_no_terminator:
  assumes "0 \<notin> set (chars_of mem s n)" and "j < n"
  shows "mem (s + j) \<noteq> 0"
proof -
  from assms(2) have "unat j < unat n"
    by (simp add: word_less_nat_alt)
  then have "chars_of mem s n ! unat j \<in> set (chars_of mem s n)"
    by simp
  moreover from \<open>unat j < unat n\<close> have "chars_of mem s n ! unat j = mem (s + j)"
    by (simp add: nth_chars_of)
  ultimately show ?thesis
    using assms(1) by metis
qed

text \<open>
  Claim C9. When the pointer \<open>s\<close> is not null, the character at \<open>s + n\<close> is the terminator and
  none of the \<open>n\<close> characters before it is, the view constructed from \<open>s\<close> has the data
  pointer \<open>s\<close> and the size \<open>n\<close>. When the pointer is null, the view has a null data pointer
  and size 0 whatever the memory holds: also on a memory without a terminator, where the
  scan of \<^verbatim>\<open>Traits::length\<close> would never return.
\<close>

theorem sv_cstr_spec:
  "(s \<noteq> nullptr \<and> mem (s + n) = 0 \<and> 0 \<notin> set (chars_of mem s n)
      \<longrightarrow> sv_cstr mem s = Some \<lparr>m_data = s, m_size = n\<rparr>) \<and>
   sv_cstr mem nullptr = Some \<lparr>m_data = nullptr, m_size = 0\<rparr> \<and>
   ((\<forall>a. mem a \<noteq> 0) \<longrightarrow>
      Traits_length mem nullptr = None \<and> sv_cstr mem nullptr = Some sv_default)"
proof -
  have "Traits_length mem s = Some n" if "mem (s + n) = 0" "0 \<notin> set (chars_of mem s n)"
    unfolding Traits_length_def using that
    by (intro Traits_length_loop_finds) (auto dest: chars_of_no_terminator)
  then show ?thesis
    by (simp add: sv_cstr_def strlen_sv_def sv_default_def Traits_length_diverges)
qed

text \<open>
  The buffer \<^verbatim>\<open>"hello world"\<close> at address 1, and the null pointer on a memory without
  a terminator.
\<close>

theorem sv_cstr_spec_witness:
  "(1 :: const_pointer) \<noteq> nullptr \<and> hello_world (1 + 11) = 0 \<and>
   0 \<notin> set (chars_of hello_world 1 11) \<and>
   sv_cstr hello_world 1 = Some \<lparr>m_data = 1, m_size = 11\<rparr> \<and>
   (\<forall>a. (\<lambda>a. 1 :: 8 word) a \<noteq> 0) \<and>
   Traits_length (\<lambda>a. 1 :: 8 word) nullptr = None \<and>
   sv_cstr (\<lambda>a. 1 :: 8 word) nullptr = Some sv_default"
proof -
  have nonnull: "(1 :: const_pointer) \<noteq> nullptr"
    by (simp add: nullptr_def)
  have terminator: "hello_world (1 + 11) = 0"
    by code_simp
  have before: "0 \<notin> set (chars_of hello_world 1 11)"
    by code_simp
  have none: "\<forall>a. (\<lambda>a. 1 :: 8 word) a \<noteq> 0"
    by simp
  from sv_cstr_spec [of 1 hello_world 11] sv_cstr_spec [of 1 "\<lambda>a. 1 :: 8 word" 11]
    nonnull terminator before none
  show ?thesis by blast
qed

subsection \<open>rfind\<close>

lemma match_iff_chars:
  "Traits_compare mem (m_data h + i) (m_data v) (unat (m_size v)) = 0 \<longleftrightarrow>
     chars_of mem (m_data h + i) (m_size v) = contents mem v"
  by (simp add: Traits_compare_chars contents_def)

lemma rfind_loop_spec:
  "pos \<noteq> npos \<Longrightarrow>
     (rfind_loop mem h s pos \<noteq> npos \<longrightarrow>
        rfind_loop mem h s pos \<le> pos \<and>
        chars_of mem (m_data h + rfind_loop mem h s pos) (m_size s) = contents mem s \<and>
        (\<forall>i. rfind_loop mem h s pos < i \<and> i \<le> pos
           \<longrightarrow> chars_of mem (m_data h + i) (m_size s) \<noteq> contents mem s)) \<and>
     (rfind_loop mem h s pos = npos \<longrightarrow>
        (\<forall>i\<le>pos. chars_of mem (m_data h + i) (m_size s) \<noteq> contents mem s))"
proof (induction mem h s pos rule: rfind_loop.induct)
  case (1 mem h s pos)
  let ?M = "\<lambda>i. chars_of mem (m_data h + i) (m_size s) = contents mem s"
  show ?case
  proof (cases "?M pos")
    case True
    with "1.prems" have "rfind_loop mem h s pos = pos"
      by (simp add: match_iff_chars rfind_loop.simps [of mem h s pos])
    with True "1.prems" show ?thesis
      by auto
  next
    case False
    with "1.prems" have step: "rfind_loop mem h s pos = rfind_loop mem h s (pos - 1)"
      by (simp add: match_iff_chars rfind_loop.simps [of mem h s pos])
    show ?thesis
    proof (cases "pos = 0")
      case True
      then have "rfind_loop mem h s pos = npos"
        unfolding step by (simp add: npos_def rfind_loop.simps [of mem h s "- 1"])
      with True False show ?thesis
        by simp
    next
      case nonzero: False
      then have prev: "pos - 1 \<noteq> npos"
        by (simp add: npos_def)
      from "1.prems" False have "Traits_compare mem (m_data h + pos) (m_data s) (unat (m_size s)) \<noteq> 0"
        by (simp add: match_iff_chars)
      from "1.IH" [OF "1.prems" this prev]
      have IH: "(rfind_loop mem h s pos \<noteq> npos \<longrightarrow>
          rfind_loop mem h s pos \<le> pos - 1 \<and> ?M (rfind_loop mem h s pos) \<and>
          (\<forall>i. rfind_loop mem h s pos < i \<and> i \<le> pos - 1 \<longrightarrow> \<not> ?M i)) \<and>
        (rfind_loop mem h s pos = npos \<longrightarrow> (\<forall>i\<le>pos - 1. \<not> ?M i))"
        unfolding step .
      have below: "i \<le> pos - 1 \<or> i = pos" if "i \<le> pos" for i
        using that nonzero by unat_arith
      have up: "i \<le> pos" if "i \<le> pos - 1" for i
        using that nonzero by unat_arith
      from IH below up False show ?thesis
        by blast
    qed
  qed
qed

lemma slice_at_in_bounds:
  "unat i + unat (m_size v) \<le> unat (m_size h) \<Longrightarrow>
     slice_at mem h v i \<longleftrightarrow> chars_of mem (m_data h + i) (m_size v) = contents mem v"
  by (simp add: slice_at_def)

text \<open>
  Claim C5. For every haystack \<open>h\<close>, needle \<open>v\<close> and upper bound \<open>pos\<close>: when \<open>v\<close> is empty,
  \<open>h.rfind(v, pos)\<close> is \<open>min(pos, h.size())\<close>; when \<open>v\<close> is longer than \<open>h\<close>, it is \<open>npos\<close>;
  otherwise a result other than \<open>npos\<close> is the largest index at most
  \<open>min(pos, h.size() - v.size())\<close> at which the slice of \<open>h\<close> equals \<open>v\<close>, and the result is
  \<open>npos\<close> exactly when no index in that range matches.
\<close>

theorem rfind_spec:
  "(empty_sv v \<longrightarrow> rfind mem h v pos = min pos (m_size h)) \<and>
   (m_size h < m_size v \<longrightarrow> rfind mem h v pos = npos) \<and>
   (\<not> empty_sv v \<and> m_size v \<le> m_size h \<longrightarrow>
      (rfind mem h v pos \<noteq> npos \<longrightarrow>
         rfind mem h v pos \<le> min pos (m_size h - m_size v) \<and>
         slice_at mem h v (rfind mem h v pos) \<and>
         (\<forall>i. rfind mem h v pos < i \<and> i \<le> min pos (m_size h - m_size v)
            \<longrightarrow> \<not> slice_at mem h v i)) \<and>
      (rfind mem h v pos = npos \<longleftrightarrow>
         (\<forall>i\<le>min pos (m_size h - m_size v). \<not> slice_at mem h v i)))"
proof (rule conjI [OF impI conjI [OF impI impI]])
  assume "empty_sv v"
  then show "rfind mem h v pos = min pos (m_size h)"
    by (simp add: rfind_def)
next
  assume longer: "m_size h < m_size v"
  then have "unat (m_size h) < unat (m_size v)"
    by (simp add: word_less_nat_alt)
  then have "m_size v \<noteq> 0"
    by auto
  with longer show "rfind mem h v pos = npos"
    by (simp add: rfind_def empty_sv_def)
next
  assume fits: "\<not> empty_sv v \<and> m_size v \<le> m_size h"
  show "(rfind mem h v pos \<noteq> npos \<longrightarrow>
         rfind mem h v pos \<le> min pos (m_size h - m_size v) \<and>
         slice_at mem h v (rfind mem h v pos) \<and>
         (\<forall>i. rfind mem h v pos < i \<and> i \<le> min pos (m_size h - m_size v)
            \<longrightarrow> \<not> slice_at mem h v i)) \<and>
      (rfind mem h v pos = npos \<longleftrightarrow>
         (\<forall>i\<le>min pos (m_size h - m_size v). \<not> slice_at mem h v i))"
  proof -
    define bound where "bound = min pos (m_size h - m_size v)"
    define r where "r = rfind mem h v pos"
    from fits have "\<not> m_size h < m_size v"
      by (simp add: not_less)
    with fits have r_loop: "r = rfind_loop mem h v bound"
      by (simp add: r_def bound_def rfind_def)
    from fits have v_le: "unat (m_size v) \<le> unat (m_size h)"
      by (simp add: word_le_nat_alt)
    from fits have v_pos: "0 < unat (m_size v)"
      by (simp add: empty_sv_def unat_gt_0)
    have "bound \<le> m_size h - m_size v"
      by (simp add: bound_def)
    then have "unat bound \<le> unat (m_size h - m_size v)"
      by (simp add: word_le_nat_alt)
    also from fits have "\<dots> = unat (m_size h) - unat (m_size v)"
      by (simp add: unat_sub)
    finally have bound_le: "unat bound \<le> unat (m_size h) - unat (m_size v)" .
    from bound_le v_le have bound_fits: "unat bound + unat (m_size v) \<le> unat (m_size h)"
      by linarith
    from bound_le v_le v_pos unat_size_bound [of "m_size h"] have "unat bound < 2 ^ 64 - 1"
      by linarith
    then have bound_npos: "bound \<noteq> npos"
      by (rule below_npos)
    have in_bounds: "unat i + unat (m_size v) \<le> unat (m_size h)" if "i \<le> bound" for i
    proof -
      from that have "unat i \<le> unat bound"
        by (simp add: word_le_nat_alt)
      with bound_fits show ?thesis
        by linarith
    qed
    have slice: "slice_at mem h v i \<longleftrightarrow> chars_of mem (m_data h + i) (m_size v) = contents mem v"
      if "i \<le> bound" for i
      using in_bounds [OF that] by (rule slice_at_in_bounds)
    note loop = rfind_loop_spec [OF bound_npos, of mem h v, folded r_loop]
    have found: "r \<le> bound \<and> slice_at mem h v r \<and> (\<forall>i. r < i \<and> i \<le> bound \<longrightarrow> \<not> slice_at mem h v i)"
      if "r \<noteq> npos"
      using loop that slice by blast
    have none: "r = npos \<longleftrightarrow> (\<forall>i\<le>bound. \<not> slice_at mem h v i)"
      using loop slice by blast
    from found none show ?thesis
      unfolding r_def bound_def by blast
  qed
qed

text \<open>
  The last \<^verbatim>\<open>o\<close> of \<^verbatim>\<open>"hello world"\<close> is at index 7; not beyond index 6, it is at 4.
  The empty needle is found at index 0 in the empty view and at index 5 in \<^verbatim>\<open>"hello"\<close>.
  \<^verbatim>\<open>"world"\<close> is longer than the view of that one letter, and is not found in it.
\<close>

theorem rfind_spec_witness:
  "\<not> empty_sv letter_o \<and> m_size letter_o \<le> m_size hello_world_sv \<and>
   rfind hello_world hello_world_sv letter_o npos = 7 \<and>
   slice_at hello_world hello_world_sv letter_o 7 \<and>
   \<not> (\<exists>i. 7 < i \<and> i \<le> min npos (m_size hello_world_sv - m_size letter_o) \<and>
          slice_at hello_world hello_world_sv letter_o i) \<and>
   rfind hello_world hello_world_sv letter_o 6 = 4 \<and>
   empty_sv sv_default \<and>
   rfind hello_world sv_default sv_default npos = 0 \<and>
   rfind hello_world hello sv_default npos = 5 \<and>
   m_size letter_o < m_size world \<and>
   rfind hello_world letter_o world npos = npos"
proof -
  have longer: "m_size letter_o < m_size world"
    by (simp add: letter_o_def world_def)
  with rfind_spec [of world hello_world letter_o npos]
  have too_long: "rfind hello_world letter_o world npos = npos"
    by blast
  have needle: "empty_sv sv_default"
    by (simp add: empty_sv_def sv_default_def)
  from rfind_spec [of sv_default hello_world sv_default npos] needle
  have in_empty: "rfind hello_world sv_default sv_default npos = 0"
    by (simp add: sv_default_def)
  from rfind_spec [of sv_default hello_world hello npos] needle
  have in_hello: "rfind hello_world hello sv_default npos = 5"
    by (simp add: hello_def)
  have fits: "\<not> empty_sv letter_o" "m_size letter_o \<le> m_size hello_world_sv"
    by (simp_all add: empty_sv_def letter_o_def hello_world_sv_def)
  have r: "rfind hello_world hello_world_sv letter_o npos = 7"
    by code_simp
  have r': "rfind hello_world hello_world_sv letter_o 6 = 4"
    by code_simp
  have found: "rfind hello_world hello_world_sv letter_o npos \<noteq> npos"
    unfolding r by (simp add: npos_def)
  from rfind_spec [of letter_o hello_world hello_world_sv npos] fits found
  have "slice_at hello_world hello_world_sv letter_o (rfind hello_world hello_world_sv letter_o npos) \<and>
      (\<forall>i. rfind hello_world hello_world_sv letter_o npos < i \<and>
           i \<le> min npos (m_size hello_world_sv - m_size letter_o)
         \<longrightarrow> \<not> slice_at hello_world hello_world_sv letter_o i)"
    by blast
  then have "slice_at hello_world hello_world_sv letter_o 7 \<and>
      (\<forall>i. 7 < i \<and> i \<le> min npos (m_size hello_world_sv - m_size letter_o)
         \<longrightarrow> \<not> slice_at hello_world hello_world_sv letter_o i)"
    unfolding r .
  with fits r r' needle in_empty in_hello longer too_long show ?thesis
    by blast
qed

subsection \<open>find\<close>

lemma not_npos_bound: "x \<noteq> npos \<Longrightarrow> unat x < 2 ^ 64 - 1"
proof -
  assume "x \<noteq> npos"
  then have "unat x \<noteq> unat npos"
    by (simp add: word_unat_eq_iff)
  with unat_size_bound [of x] show ?thesis
    by (simp add: unat_npos)
qed

lemma find_loop_spec:
  assumes valid: "m_size h \<noteq> npos"
    and start: "unat pos + unat (m_size v) \<le> unat (m_size h) + 1"
  shows "\<exists>r. find_loop mem h v pos = Some r \<and>
     (r \<noteq> npos \<longrightarrow> pos \<le> r \<and> slice_at mem h v r \<and>
        (\<forall>i. pos \<le> i \<and> i < r \<longrightarrow> \<not> slice_at mem h v i)) \<and>
     (r = npos \<longrightarrow> (\<forall>i. pos \<le> i \<longrightarrow> \<not> slice_at mem h v i))"
  using start
proof (induction "unat (m_size h) + 1 - (unat pos + unat (m_size v))" arbitrary: pos rule: less_induct)
  case less
  note hs = not_npos_bound [OF valid]
  from less.prems hs have "unat pos + unat (m_size v) < 2 ^ 64"
    by linarith
  then have sum: "unat (pos + m_size v) = unat pos + unat (m_size v)"
    by (rule unat_size_add)
  have test: "pos + m_size v \<le> m_size h \<longleftrightarrow> unat pos + unat (m_size v) \<le> unat (m_size h)"
    by (simp add: word_le_nat_alt sum)
  show ?case
  proof (cases "pos + m_size v \<le> m_size h")
    case False
    then have result: "find_loop mem h v pos = Some npos"
      by (simp add: find_loop.simps [of mem h v pos])
    have "\<not> slice_at mem h v i" if "pos \<le> i" for i
    proof -
      from that have "unat pos \<le> unat i"
        by (simp add: word_le_nat_alt)
      with False test show ?thesis
        by (simp add: slice_at_def)
    qed
    with result show ?thesis
      by simp
  next
    case fits: True
    show ?thesis
    proof (cases "Traits_compare mem (m_data h + pos) (m_data v) (unat (m_size v)) = 0")
      case True
      with fits have result: "find_loop mem h v pos = Some pos"
        by (simp add: find_loop.simps [of mem h v pos])
      from fits test hs have "unat pos < 2 ^ 64 - 1"
        by linarith
      then have "pos \<noteq> npos"
        by (rule below_npos)
      moreover from True fits test have "slice_at mem h v pos"
        by (simp add: slice_at_def match_iff_chars)
      ultimately show ?thesis
        using result by auto
    next
      case False
      with fits have step: "find_loop mem h v pos = find_loop mem h v (pos + 1)"
        by (simp add: find_loop.simps [of mem h v pos])
      from False have "unat (m_size v) \<noteq> 0"
        by (auto intro: ccontr)
      then have v_pos: "0 < unat (m_size v)"
        by simp
      from fits test hs v_pos have "unat pos + unat (1 :: size_type) < 2 ^ 64"
        by simp
      then have "unat (pos + 1) = unat pos + unat (1 :: size_type)"
        by (rule unat_size_add)
      then have next_pos: "unat (pos + 1) = unat pos + 1"
        by simp
      from fits test next_pos v_pos
      have smaller: "unat (m_size h) + 1 - (unat (pos + 1) + unat (m_size v))
          < unat (m_size h) + 1 - (unat pos + unat (m_size v))"
        and next_start: "unat (pos + 1) + unat (m_size v) \<le> unat (m_size h) + 1"
        by linarith+
      from less.hyps [OF smaller next_start] obtain r where
        r: "find_loop mem h v (pos + 1) = Some r"
        and found: "r \<noteq> npos \<longrightarrow> pos + 1 \<le> r \<and> slice_at mem h v r \<and>
          (\<forall>i. pos + 1 \<le> i \<and> i < r \<longrightarrow> \<not> slice_at mem h v i)"
        and none: "r = npos \<longrightarrow> (\<forall>i. pos + 1 \<le> i \<longrightarrow> \<not> slice_at mem h v i)"
        by blast
      from False have here: "\<not> slice_at mem h v pos"
        by (simp add: slice_at_def match_iff_chars)
      have after: "i = pos \<or> pos + 1 \<le> i" if "pos \<le> i" for i
      proof -
        from that have "unat pos \<le> unat i"
          by (simp add: word_le_nat_alt)
        then have "unat i = unat pos \<or> unat (pos + 1) \<le> unat i"
          unfolding next_pos by linarith
        then show ?thesis
          by (simp add: word_le_nat_alt word_unat_eq_iff)
      qed
      have before: "pos \<le> i" if "pos + 1 \<le> i" for i
      proof -
        from that have "unat (pos + 1) \<le> unat i"
          by (simp add: word_le_nat_alt)
        then show ?thesis
          unfolding next_pos by (simp add: word_le_nat_alt)
      qed
      from r found none here after before show ?thesis
        unfolding step by blast
    qed
  qed
qed

text \<open>
  Claim C1. For every haystack \<open>h\<close> over a valid range, needle \<open>v\<close> and start \<open>pos\<close>: when
  \<open>h\<close> and \<open>v\<close> are empty and \<open>pos = 0\<close>, \<open>h.find(v, pos)\<close> returns 0; when \<open>pos > h.size()\<close>
  or \<open>v.size() > h.size() - pos\<close>, it returns \<open>npos\<close>; otherwise it returns, and a result
  other than \<open>npos\<close> is the smallest index \<open>i \<ge> pos\<close> at which the slice of \<open>h\<close> of the length
  of \<open>v\<close> equals \<open>v\<close>, and the result is \<open>npos\<close> exactly when there is no such slice at or
  after \<open>pos\<close>.

  The hypothesis \<open>m_size h \<noteq> npos\<close> holds of every view over a valid range
  \<^verbatim>\<open>[data, data + size)\<close>: a range of \<open>npos = 2 ^ 64 - 1\<close> characters would hold every
  address but one, and so either the null address or a wrap-around.
\<close>

theorem find_spec:
  assumes valid: "m_size h \<noteq> npos"
  shows "(empty_sv h \<and> empty_sv v \<and> pos = 0 \<longrightarrow> find_sv mem h v pos = Some 0) \<and>
   (m_size h < pos \<or> m_size h - pos < m_size v \<longrightarrow> find_sv mem h v pos = Some npos) \<and>
   (\<not> (m_size h < pos \<or> m_size h - pos < m_size v) \<longrightarrow>
      (\<exists>r. find_sv mem h v pos = Some r \<and>
         (r \<noteq> npos \<longrightarrow> pos \<le> r \<and> slice_at mem h v r \<and>
            (\<forall>i. pos \<le> i \<and> i < r \<longrightarrow> \<not> slice_at mem h v i)) \<and>
         (r = npos \<longleftrightarrow> (\<forall>i. pos \<le> i \<longrightarrow> \<not> slice_at mem h v i))))"
proof (rule conjI [OF impI conjI [OF impI impI]])
  assume "empty_sv h \<and> empty_sv v \<and> pos = 0"
  then show "find_sv mem h v pos = Some 0"
    by (simp add: find_sv_def)
next
  assume outside: "m_size h < pos \<or> m_size h - pos < m_size v"
  then have "\<not> (empty_sv h \<and> empty_sv v \<and> pos = 0)"
    by (auto simp: empty_sv_def)
  with outside show "find_sv mem h v pos = Some npos"
    by (auto simp: find_sv_def)
next
  assume inside: "\<not> (m_size h < pos \<or> m_size h - pos < m_size v)"
  then have pos_le: "pos \<le> m_size h" and v_le: "m_size v \<le> m_size h - pos"
    by (simp_all add: not_less)
  from pos_le have "unat (m_size h - pos) = unat (m_size h) - unat pos"
    by (rule unat_sub)
  with pos_le v_le have start: "unat pos + unat (m_size v) \<le> unat (m_size h) + 1"
    by (simp add: word_le_nat_alt)
  have "\<exists>r. find_sv mem h v pos = Some r \<and>
     (r \<noteq> npos \<longrightarrow> pos \<le> r \<and> slice_at mem h v r \<and>
        (\<forall>i. pos \<le> i \<and> i < r \<longrightarrow> \<not> slice_at mem h v i)) \<and>
     (r = npos \<longrightarrow> (\<forall>i. pos \<le> i \<longrightarrow> \<not> slice_at mem h v i))"
  proof (cases "empty_sv h \<and> empty_sv v \<and> pos = 0")
    case True
    then have "find_sv mem h v pos = Some 0"
      by (simp add: find_sv_def)
    moreover have "(0 :: size_type) \<noteq> npos"
      by (simp add: npos_def)
    moreover from True have "slice_at mem h v 0"
      by (simp add: slice_at_def empty_sv_def contents_def)
    ultimately show ?thesis
      using True by auto
  next
    case False
    with inside have "find_sv mem h v pos = find_loop mem h v pos"
      by (auto simp: find_sv_def)
    with find_loop_spec [OF valid start, of mem] show ?thesis
      by simp
  qed
  then obtain r where r: "find_sv mem h v pos = Some r"
    and found: "r \<noteq> npos \<longrightarrow> pos \<le> r \<and> slice_at mem h v r \<and>
        (\<forall>i. pos \<le> i \<and> i < r \<longrightarrow> \<not> slice_at mem h v i)"
    and none: "r = npos \<longrightarrow> (\<forall>i. pos \<le> i \<longrightarrow> \<not> slice_at mem h v i)"
    by blast
  from found none have "r = npos \<longleftrightarrow> (\<forall>i. pos \<le> i \<longrightarrow> \<not> slice_at mem h v i)"
    by blast
  with r found
  show "\<exists>r. find_sv mem h v pos = Some r \<and>
         (r \<noteq> npos \<longrightarrow> pos \<le> r \<and> slice_at mem h v r \<and>
            (\<forall>i. pos \<le> i \<and> i < r \<longrightarrow> \<not> slice_at mem h v i)) \<and>
         (r = npos \<longleftrightarrow> (\<forall>i. pos \<le> i \<longrightarrow> \<not> slice_at mem h v i))"
    by blast
qed

text \<open>
  \<^verbatim>\<open>View("hello world").find("world")\<close> is 6, the first index with that slice.
  \<^verbatim>\<open>"world"\<close> is not in \<^verbatim>\<open>"hello"\<close>: from index 0 the loop ends with \<open>npos\<close>, from
  index 3 the needle does not fit. The empty needle is found at index 0 of the empty view.
\<close>

theorem find_spec_witness:
  "m_size hello_world_sv \<noteq> npos \<and>
   \<not> (m_size hello_world_sv < 0 \<or> m_size hello_world_sv - 0 < m_size world) \<and>
   find_sv hello_world hello_world_sv world 0 = Some 6 \<and>
   slice_at hello_world hello_world_sv world 6 \<and>
   \<not> (\<exists>i. 0 \<le> i \<and> i < 6 \<and> slice_at hello_world hello_world_sv world i) \<and>
   m_size hello \<noteq> npos \<and>
   \<not> (m_size hello < 0 \<or> m_size hello - 0 < m_size world) \<and>
   find_sv hello_world hello world 0 = Some npos \<and>
   \<not> (\<exists>i. 0 \<le> i \<and> slice_at hello_world hello world i) \<and>
   m_size hello - 3 < m_size world \<and>
   find_sv hello_world hello world 3 = Some npos \<and>
   m_size sv_default \<noteq> npos \<and> empty_sv sv_default \<and>
   find_sv hello_world sv_default sv_default 0 = Some 0"
proof -
  have valid: "m_size hello_world_sv \<noteq> npos"
    by (simp add: hello_world_sv_def npos_def)
  have inside: "\<not> (m_size hello_world_sv < 0 \<or> m_size hello_world_sv - 0 < m_size world)"
    by (simp add: hello_world_sv_def world_def)
  have result: "find_sv hello_world hello_world_sv world 0 = Some 6"
    by code_simp
  have six: "(6 :: size_type) \<noteq> npos"
    by (simp add: npos_def)
  from find_spec [OF valid, where pos = 0 and v = world and mem = hello_world] inside
  obtain r where "find_sv hello_world hello_world_sv world 0 = Some r"
    and "r \<noteq> npos \<longrightarrow> 0 \<le> r \<and> slice_at hello_world hello_world_sv world r \<and>
      (\<forall>i. 0 \<le> i \<and> i < r \<longrightarrow> \<not> slice_at hello_world hello_world_sv world i)"
    by blast
  with result six have found: "slice_at hello_world hello_world_sv world 6 \<and>
      (\<forall>i. 0 \<le> i \<and> i < 6 \<longrightarrow> \<not> slice_at hello_world hello_world_sv world i)"
    by simp
  have valid': "m_size hello \<noteq> npos"
    by (simp add: hello_def npos_def)
  have inside': "\<not> (m_size hello < 0 \<or> m_size hello - 0 < m_size world)"
    by (simp add: hello_def world_def)
  have result': "find_sv hello_world hello world 0 = Some npos"
    by code_simp
  from find_spec [OF valid', where pos = 0 and v = world and mem = hello_world] inside'
  obtain r' where "find_sv hello_world hello world 0 = Some r'"
    and "r' = npos \<longleftrightarrow> (\<forall>i. 0 \<le> i \<longrightarrow> \<not> slice_at hello_world hello world i)"
    by blast
  with result' have absent: "\<forall>i. 0 \<le> i \<longrightarrow> \<not> slice_at hello_world hello world i"
    by simp
  have outside: "m_size hello - 3 < m_size world"
    by (simp add: hello_def world_def)
  with find_spec [OF valid', where pos = 3 and v = world and mem = hello_world]
  have too_long: "find_sv hello_world hello world 3 = Some npos"
    by blast
  have valid'': "m_size sv_default \<noteq> npos"
    by (simp add: sv_default_def npos_def)
  have empty: "empty_sv sv_default"
    by (simp add: empty_sv_def sv_default_def)
  with find_spec [OF valid'', where pos = 0 and v = sv_default and mem = hello_world]
  have both_empty: "find_sv hello_world sv_default sv_default 0 = Some 0"
    by blast
  from valid inside result found valid' inside' result' absent outside too_long
    valid'' empty both_empty
  show ?thesis
    by blast
qed

text \<open>
  The hypothesis is needed. On a view of \<open>npos\<close> characters the sum \<^verbatim>\<open>pos + v.m_size\<close>
  wraps to 0 after the last position, the loop goes on from index 0, and a search from the
  last index returns the index 0 before it.
\<close>

lemma find_wraps_at_npos_size:
  "find_sv (\<lambda>a. if a = 1 then 120 else 0 :: 8 word)
     \<lparr>m_data = 1, m_size = npos\<rparr> \<lparr>m_data = 1, m_size = 1\<rparr> (npos - 1) = Some 0"
  by (simp add: find_sv_def empty_sv_def npos_def find_loop.simps [of _ _ _ "- 2"]
      find_loop.simps [of _ _ _ "- 1"] find_loop.simps [of _ _ _ 0])

subsection \<open>copy\<close>

lemma Traits_copy_outside:
  "(\<forall>i<n. a \<noteq> dest + of_nat i) \<Longrightarrow> Traits_copy mem dest src n a = mem a"
proof (induction n arbitrary: mem dest src)
  case 0
  show ?case by simp
next
  case (Suc n)
  from Suc.prems have "a \<noteq> dest + of_nat 0"
    by blast
  then have first: "a \<noteq> dest"
    by simp
  have "a \<noteq> dest + 1 + of_nat i" if "i < n" for i
    using Suc.prems [rule_format, of "Suc i"] that by (simp add: add.assoc)
  then have "Traits_copy (mem(dest := mem src)) (dest + 1) (src + 1) n a = (mem(dest := mem src)) a"
    by (intro Suc.IH) simp
  with first show ?case
    by simp
qed

lemma of_nat_Suc_nonzero: "Suc k < 2 ^ 64 \<Longrightarrow> (of_nat (Suc k) :: size_type) \<noteq> 0"
proof
  assume small: "Suc k < 2 ^ 64" and zero: "(of_nat (Suc k) :: size_type) = 0"
  from small have "unat (of_nat (Suc k) :: size_type) = Suc k"
    by (rule unat_size_of_nat)
  moreover from zero have "unat (of_nat (Suc k) :: size_type) = unat (0 :: size_type)"
    by (rule arg_cong)
  ultimately show False
    by simp
qed

lemma Traits_copy_inside:
  "i < n \<Longrightarrow> n \<le> 2 ^ 64 \<Longrightarrow> (\<forall>k<n. \<forall>j<n. dest + of_nat k \<noteq> src + of_nat j) \<Longrightarrow>
     Traits_copy mem dest src n (dest + of_nat i) = mem (src + of_nat i)"
proof (induction n arbitrary: mem dest src i)
  case 0
  then show ?case by simp
next
  case (Suc n)
  let ?mem = "mem(dest := mem src)"
  show ?case
  proof (cases i)
    case 0
    have "dest \<noteq> dest + 1 + of_nat k" if "k < n" for k
    proof -
      from that Suc.prems(2) have "Suc k < 2 ^ 64"
        by simp
      then have "(of_nat (Suc k) :: size_type) \<noteq> 0"
        by (rule of_nat_Suc_nonzero)
      then show ?thesis
        by (simp add: add.assoc)
    qed
    then have "Traits_copy ?mem (dest + 1) (src + 1) n dest = ?mem dest"
      by (intro Traits_copy_outside) simp
    with 0 show ?thesis
      by simp
  next
    case (Suc i')
    with Suc.prems(1) have i': "i' < n"
      by simp
    from Suc.prems(2) have n: "n \<le> 2 ^ 64"
      by simp
    have disjoint: "\<forall>k<n. \<forall>j<n. dest + 1 + of_nat k \<noteq> src + 1 + of_nat j"
    proof (intro allI impI)
      fix k j assume "k < n" "j < n"
      with Suc.prems(3) [rule_format, of "Suc k" "Suc j"]
      show "dest + 1 + of_nat k \<noteq> src + 1 + of_nat j"
        by (simp add: add.assoc)
    qed
    from Suc.prems(3) [rule_format, of 0 "Suc i'"] i'
    have "src + 1 + of_nat i' \<noteq> dest"
      by (simp add: add.assoc eq_commute)
    then have unchanged: "?mem (src + 1 + of_nat i') = mem (src + 1 + of_nat i')"
      by simp
    have "Traits_copy ?mem (dest + 1) (src + 1) n (dest + 1 + of_nat i') = ?mem (src + 1 + of_nat i')"
      by (rule Suc.IH [OF i' n disjoint])
    then
    have "Traits_copy ?mem (dest + 1) (src + 1) n (dest + 1 + of_nat i') = mem (src + 1 + of_nat i')"
      using unchanged by (rule trans)
    with Suc show ?thesis
      by (simp add: add.assoc)
  qed
qed

lemma in_range_of: "a \<in> set (range_of p n) \<longleftrightarrow> (\<exists>i<unat n. a = p + of_nat i)"
  by (auto simp: range_of_def)

text \<open>
  Claim C8. For every view \<open>h\<close> and every \<open>pos \<le> size\<close>, with \<open>rcount = min(count, size - pos)\<close>
  and a destination range \<^verbatim>\<open>[dest, dest + rcount)\<close> apart from the characters copied (the
  condition of \<^verbatim>\<open>Traits::copy\<close>): \<open>copy(dest, count, pos)\<close> returns \<open>rcount\<close>, the
  \<open>rcount\<close> characters from \<open>dest\<close> on are afterwards the characters of the view from \<open>pos\<close>
  on, and no address outside the destination range changes. When \<open>h\<close> is the view
  constructed from the null-terminated buffer \<open>s\<close>, \<open>pos = 0\<close> and \<open>count = size\<close>, all of the
  view is copied and the destination holds the characters of the buffer.
\<close>

theorem copy_roundtrip:
  assumes "pos \<le> m_size h"
    and "rcount = min count (m_size h - pos)"
    and "set (range_of dest rcount) \<inter> set (range_of (m_data h + pos) rcount) = {}"
  shows "\<exists>mem'. copy mem h dest count pos = Inr (mem', rcount) \<and>
     chars_of mem' dest rcount = chars_of mem (m_data h + pos) rcount \<and>
     (\<forall>a. a \<notin> set (range_of dest rcount) \<longrightarrow> mem' a = mem a) \<and>
     (sv_cstr mem s = Some h \<and> pos = 0 \<and> count = m_size h \<longrightarrow>
        rcount = m_size h \<and> chars_of mem' dest (m_size h) = chars_of mem s (m_size h))"
proof -
  define mem' where "mem' = Traits_copy mem dest (m_data h + pos) (unat rcount)"
  from assms(1,2) have result: "copy mem h dest count pos = Inr (mem', rcount)"
    by (simp add: copy_def mem'_def Let_def not_less [symmetric])
  have disjoint: "\<forall>k<unat rcount. \<forall>j<unat rcount. dest + of_nat k \<noteq> m_data h + pos + of_nat j"
  proof (intro allI impI)
    fix k j assume k: "k < unat rcount" and j: "j < unat rcount"
    show "dest + of_nat k \<noteq> m_data h + pos + of_nat j"
    proof
      assume same: "dest + of_nat k = m_data h + pos + of_nat j"
      from k have "dest + of_nat k \<in> set (range_of dest rcount)"
        unfolding in_range_of by blast
      moreover from j same have "dest + of_nat k \<in> set (range_of (m_data h + pos) rcount)"
        unfolding in_range_of by blast
      ultimately show False
        using assms(3) by blast
    qed
  qed
  have bound: "unat rcount \<le> 2 ^ 64"
    using unat_size_bound [of rcount] by simp
  have copied: "mem' (dest + of_nat i) = mem (m_data h + pos + of_nat i)" if "i < unat rcount" for i
    unfolding mem'_def using that bound disjoint by (rule Traits_copy_inside)
  have "\<forall>i<unat rcount. chars_of mem' dest rcount ! i = chars_of mem (m_data h + pos) rcount ! i"
    using copied nth_chars_of [of _ rcount] by metis
  then have same: "chars_of mem' dest rcount = chars_of mem (m_data h + pos) rcount"
    unfolding list_eq_iff_nth_eq [of "chars_of mem' dest rcount"] by simp
  have frame: "\<forall>a. a \<notin> set (range_of dest rcount) \<longrightarrow> mem' a = mem a"
    unfolding mem'_def by (auto simp: in_range_of intro: Traits_copy_outside)
  have round: "rcount = m_size h \<and> chars_of mem' dest (m_size h) = chars_of mem s (m_size h)"
    if "sv_cstr mem s = Some h \<and> pos = 0 \<and> count = m_size h"
  proof -
    from that have "m_data h = s"
      by (auto simp: sv_cstr_def split: option.splits)
    with that same assms(2) show ?thesis
      by simp
  qed
  from result same frame round show ?thesis
    by blast
qed

text \<open>
  The view of the buffer \<^verbatim>\<open>"hello world"\<close>, copied to the 11 addresses from 100 on.
\<close>

theorem copy_roundtrip_witness:
  "(0 :: size_type) \<le> m_size hello_world_sv \<and>
   (11 :: size_type) = min 11 (m_size hello_world_sv - 0) \<and>
   set (range_of 100 11) \<inter> set (range_of (m_data hello_world_sv + 0) 11) = {} \<and>
   sv_cstr hello_world 1 = Some hello_world_sv \<and>
   (\<exists>mem'. copy hello_world hello_world_sv 100 11 0 = Inr (mem', 11) \<and>
      chars_of mem' 100 11 = chars_of hello_world 1 11)"
proof -
  have pos: "(0 :: size_type) \<le> m_size hello_world_sv"
    by simp
  have rcount: "(11 :: size_type) = min 11 (m_size hello_world_sv - 0)"
    by (simp add: hello_world_sv_def)
  have apart: "set (range_of 100 11) \<inter> set (range_of (m_data hello_world_sv + 0) 11) = {}"
    by code_simp
  have built: "sv_cstr hello_world 1 = Some hello_world_sv"
    by code_simp
  have full: "(11 :: size_type) = m_size hello_world_sv"
    by (simp add: hello_world_sv_def)
  from copy_roundtrip [OF pos rcount apart, of hello_world 1] built full
  obtain mem' where "copy hello_world hello_world_sv 100 11 0 = Inr (mem', 11)"
    and "chars_of mem' 100 (m_size hello_world_sv) = chars_of hello_world 1 (m_size hello_world_sv)"
    by auto
  with pos rcount apart built full show ?thesis
    by metis
qed

end
